theory Spec2Isabelle
  imports Complex_Main "HOL-Library.AList" "HOL-Library.Sublist"
    "HOL-Library.Char_ord" "HOL-Library.List_Lexorder"
begin

section \<open>Platform functions used by the generator\<close>

text \<open>
  Strings are byte strings. \<open>Buffer.from(s).toString('base64')\<close> is the standard base64
  encoding (RFC 4648, with padding) of the bytes of \<open>s\<close>.
\<close>

definition b64alphabet :: string where
  "b64alphabet = ''ABCDEFGHIJKLMNOPQRSTUVWXYZabcdefghijklmnopqrstuvwxyz0123456789+/''"

definition b64char :: "nat \<Rightarrow> char" where
  "b64char n = b64alphabet ! (n mod 64)"

fun b64groups :: "nat list \<Rightarrow> string" where
  "b64groups [] = []"
| "b64groups [a] = [b64char (a div 4), b64char ((a mod 4) * 16), CHR ''='', CHR ''='']"
| "b64groups [a, b] =
     [b64char (a div 4), b64char ((a mod 4) * 16 + b div 16), b64char ((b mod 16) * 4), CHR ''='']"
| "b64groups (a # b # c # rest) =
     [b64char (a div 4), b64char ((a mod 4) * 16 + b div 16),
      b64char ((b mod 16) * 4 + c div 64), b64char (c mod 64)] @ b64groups rest"

definition toBase64 :: "string \<Rightarrow> string" where
  "toBase64 s = b64groups (map of_char s)"

section \<open>The hosting service\<close>

text \<open>
  Modelled from the spec: the hosting API (the \<open>rest.git\<close> and \<open>rest.repos\<close>
  endpoints that \<open>this.octokit\<close> reaches) is an external service and not part of the
  repository. Its objects follow the spec's glossary: blobs, trees and commits are
  content-addressed, a tree maps paths to blobs, a commit points to a tree and its
  parents, and a branch pointer names the tip commit. An object id is modelled by the
  object it addresses (an ideal, collision-free hash); a blob is its content as sent, in
  base64. A tree is kept flat: repository-relative path to blob.
\<close>

datatype sha =
    BlobSha string
  | TreeSha "(string \<times> sha) list"
  | CommitSha sha "sha list" string

datatype error =
    HttpError nat string
  | TypeError string

fun status :: "error \<Rightarrow> nat option" where
  "status (HttpError n m) = Some n"
| "status (TypeError m) = None"

fun message :: "error \<Rightarrow> string" where
  "message (HttpError n m) = m"
| "message (TypeError m) = m"

record tree_entry =
  path :: string
  mode :: string
  type :: string
  sha :: sha

record content_entry =
  type :: string
  name :: string
  path :: string
  sha :: sha

datatype content = File content_entry | Dir "content_entry list"

text \<open>
  The requests the publisher sends, with the arguments that vary (owner and repository
  are the same in every request); the log keeps each with its outcome.
\<close>

datatype call =
    GetRef string
  | GetCommit sha
  | CreateBlob string string
  | CreateTree sha "tree_entry list"
  | CreateCommit string sha "sha list"
  | UpdateRef string sha
  | GetContent string string
  | DeleteFile string string sha string

text \<open>
  The hosted repository: branch pointers, the objects that exist, the log of requests
  received, and a fault plan. \<open>faults r n = Some e\<close> makes the \<open>n\<close>-th request
  (counted from 0 over the whole log) fail with \<open>e\<close> whatever its arguments, so every
  pattern of network and service failures is a value of the state. A failed request
  changes nothing but the log.
\<close>

record remote =
  refs :: "string \<rightharpoonup> sha"
  objects :: "sha set"
  calls :: "(call \<times> error option) list"
  faults :: "nat \<Rightarrow> error option"

definition failed :: "call \<Rightarrow> error \<Rightarrow> remote \<Rightarrow> (error + 'a) \<times> remote" where
  "failed c e r = (Inl e, r\<lparr>calls := calls r @ [(c, Some e)]\<rparr>)"

definition served :: "call \<Rightarrow> 'a \<Rightarrow> remote \<Rightarrow> (error + 'a) \<times> remote" where
  "served c x r = (Inr x, r\<lparr>calls := calls r @ [(c, None)]\<rparr>)"

definition request :: "call \<Rightarrow> (remote \<Rightarrow> error + 'a \<times> remote) \<Rightarrow> remote \<Rightarrow> (error + 'a) \<times> remote" where
  "request c serve r =
     (case faults r (length (calls r)) of
        Some e \<Rightarrow> failed c e r
      | None \<Rightarrow>
          (case serve r of
             Inl e \<Rightarrow> failed c e r
           | Inr (x, r') \<Rightarrow> served c x r'))"

definition notFound :: error where
  "notFound = HttpError 404 ''Not Found''"

definition unprocessable :: error where
  "unprocessable = HttpError 422 ''Unprocessable Entity''"

definition conflict :: error where
  "conflict = HttpError 409 ''Conflict''"

subsection \<open>Git data endpoints\<close>

text \<open>
  Modelled from the spec: section 4.4 names what each step of the protocol takes and
  yields. A request about an object or a reference that does not exist is refused.
\<close>

definition getRef :: "string \<Rightarrow> remote \<Rightarrow> (error + sha) \<times> remote" where
  "getRef ref r =
     request (GetRef ref)
       (\<lambda>r. case refs r ref of None \<Rightarrow> Inl notFound | Some s \<Rightarrow> Inr (s, r)) r"

text \<open>\<open>getCommit\<close> answers with the commit's data; the publisher reads \<open>tree.sha\<close> from it.\<close>

definition getCommit :: "sha \<Rightarrow> remote \<Rightarrow> (error + sha) \<times> remote" where
  "getCommit commit_sha r =
     request (GetCommit commit_sha)
       (\<lambda>r. case commit_sha of
               CommitSha t ps m \<Rightarrow> if commit_sha \<in> objects r then Inr (t, r) else Inl notFound
             | _ \<Rightarrow> Inl notFound) r"

definition createBlob :: "string \<Rightarrow> string \<Rightarrow> remote \<Rightarrow> (error + sha) \<times> remote" where
  "createBlob cont encoding r =
     request (CreateBlob cont encoding)
       (\<lambda>r. Inr (BlobSha cont, r\<lparr>objects := insert (BlobSha cont) (objects r)\<rparr>)) r"

text \<open>
  Step 4 of the protocol: the new blobs are layered onto the base tree; unspecified paths
  are left untouched, same-path entries are replaced.
\<close>

fun layer :: "(string \<times> sha) list \<Rightarrow> tree_entry list \<Rightarrow> (string \<times> sha) list" where
  "layer t [] = t"
| "layer t (e # es) = layer (AList.update (tree_entry.path e) (tree_entry.sha e) t) es"

definition createTree :: "sha \<Rightarrow> tree_entry list \<Rightarrow> remote \<Rightarrow> (error + sha) \<times> remote" where
  "createTree base_tree entries r =
     request (CreateTree base_tree entries)
       (\<lambda>r. case base_tree of
               TreeSha t \<Rightarrow>
                 if base_tree \<in> objects r \<and> list_all (\<lambda>e. tree_entry.sha e \<in> objects r) entries
                 then Inr (TreeSha (layer t entries),
                           r\<lparr>objects := insert (TreeSha (layer t entries)) (objects r)\<rparr>)
                 else Inl unprocessable
             | _ \<Rightarrow> Inl unprocessable) r"

text \<open>\<open>createCommit\<close> answers with the new commit's data, whose \<open>sha\<close> is its id.\<close>

definition createCommit :: "string \<Rightarrow> sha \<Rightarrow> sha list \<Rightarrow> remote \<Rightarrow> (error + sha) \<times> remote" where
  "createCommit msg t parents r =
     request (CreateCommit msg t parents)
       (\<lambda>r. if t \<in> objects r \<and> list_all (\<lambda>p. p \<in> objects r) parents
             then Inr (CommitSha t parents msg,
                       r\<lparr>objects := insert (CommitSha t parents msg) (objects r)\<rparr>)
             else Inl unprocessable) r"

definition updateRef :: "string \<Rightarrow> sha \<Rightarrow> remote \<Rightarrow> (error + unit) \<times> remote" where
  "updateRef ref s r =
     request (UpdateRef ref s)
       (\<lambda>r. case refs r ref of
               None \<Rightarrow> Inl unprocessable
             | Some old \<Rightarrow>
                 if s \<in> objects r then Inr ((), r\<lparr>refs := (refs r)(ref \<mapsto> s)\<rparr>)
                 else Inl unprocessable) r"

subsection \<open>Repository contents endpoints\<close>

text \<open>
  Modelled from the spec: section 4.5 has the listing of a path yield its immediate
  children, files and directories, and section 7 has a path that does not exist answered
  with not-found. A path that names a file yields that file alone.
\<close>

text \<open>The tree at the tip of a branch, as a reader of the branch sees it.\<close>

definition branchTree :: "remote \<Rightarrow> string \<Rightarrow> (string \<times> sha) list option" where
  "branchTree r b =
     (case refs r (''heads/'' @ b) of
        Some (CommitSha (TreeSha t) ps m) \<Rightarrow> Some t
      | _ \<Rightarrow> None)"

definition branchFiles :: "remote \<Rightarrow> string \<Rightarrow> (string \<rightharpoonup> sha)" where
  "branchFiles r b = (case branchTree r b of Some t \<Rightarrow> map_of t | None \<Rightarrow> Map.empty)"

text \<open>The entries of the tree below directory \<open>p\<close>, with paths relative to \<open>p\<close>.\<close>

definition below :: "(string \<times> sha) list \<Rightarrow> string \<Rightarrow> (string \<times> sha) list" where
  "below t p = [(drop (length p + 1) q, s). (q, s) \<leftarrow> t, prefix (p @ ''/'') q]"

definition baseName :: "string \<Rightarrow> string" where
  "baseName p = rev (takeWhile (\<lambda>c. c \<noteq> CHR ''/'') (rev p))"

definition child :: "(string \<times> sha) list \<Rightarrow> string \<Rightarrow> string \<Rightarrow> content_entry" where
  "child t p n =
     (case map_of (below t p) n of
        Some s \<Rightarrow> \<lparr>content_entry.type = ''file'', name = n, path = p @ ''/'' @ n, sha = s\<rparr>
      | None \<Rightarrow> \<lparr>content_entry.type = ''dir'', name = n, path = p @ ''/'' @ n,
                 sha = TreeSha (below (below t p) n)\<rparr>)"

text \<open>The immediate children of directory \<open>p\<close>, ordered by name.\<close>

definition children :: "(string \<times> sha) list \<Rightarrow> string \<Rightarrow> content_entry list" where
  "children t p =
     map (child t p)
       (sort (remdups (map (\<lambda>(q, s). takeWhile (\<lambda>c. c \<noteq> CHR ''/'') q) (below t p))))"

definition contentAt :: "(string \<times> sha) list \<Rightarrow> string \<Rightarrow> content option" where
  "contentAt t p =
     (case map_of t p of
        Some s \<Rightarrow> Some (File \<lparr>content_entry.type = ''file'', name = baseName p, path = p, sha = s\<rparr>)
      | None \<Rightarrow> (case children t p of [] \<Rightarrow> None | c # cs \<Rightarrow> Some (Dir (c # cs))))"

definition getContent :: "string \<Rightarrow> string \<Rightarrow> remote \<Rightarrow> (error + content) \<times> remote" where
  "getContent p ref r =
     request (GetContent p ref)
       (\<lambda>r. case branchTree r ref of
               None \<Rightarrow> Inl notFound
             | Some t \<Rightarrow> (case contentAt t p of None \<Rightarrow> Inl notFound | Some c \<Rightarrow> Inr (c, r))) r"

text \<open>
  \<open>deleteFile\<close> removes one file in a commit of its own. It needs the path of a file and
  that file's current blob id; a directory path names no file.
\<close>

definition deleteFile :: "string \<Rightarrow> string \<Rightarrow> sha \<Rightarrow> string \<Rightarrow> remote \<Rightarrow> (error + unit) \<times> remote" where
  "deleteFile p msg s b r =
     request (DeleteFile p msg s b)
       (\<lambda>r. case refs r (''heads/'' @ b) of
               Some (CommitSha (TreeSha t) ps m) \<Rightarrow>
                 (case map_of t p of
                    None \<Rightarrow> Inl notFound
                  | Some s' \<Rightarrow>
                      if s' = s
                      then Inr ((), r\<lparr>refs := (refs r)(''heads/'' @ b \<mapsto>
                                           CommitSha (TreeSha (AList.delete p t)) [CommitSha (TreeSha t) ps m] msg),
                                      objects := insert (CommitSha (TreeSha (AList.delete p t)) [CommitSha (TreeSha t) ps m] msg)
                                                  (insert (TreeSha (AList.delete p t)) (objects r))\<rparr>)
                      else Inl conflict)
             | _ \<Rightarrow> Inl notFound) r"

section \<open>GitHubPublisher\<close>

record publisher =
  owner :: "string option"
  repo :: string
  branch :: string
  pagesBaseUrl :: string

record upload_file =
  path :: string
  content :: string
  isBase64 :: bool

text \<open>The \<open>content\<close> argument of the \<open>createBlob\<close> request for one file.\<close>

definition blobContent :: "upload_file \<Rightarrow> string" where
  "blobContent f = (if isBase64 f then content f else toBase64 (content f))"

definition blobEntry :: "upload_file \<Rightarrow> sha \<Rightarrow> tree_entry" where
  "blobEntry f s = \<lparr>tree_entry.path = upload_file.path f, mode = ''100644'', type = ''blob'', sha = s\<rparr>"

text \<open>
  \<open>Promise.all(files.map(async file => createBlob ...))\<close>: every request is issued, in the
  order of \<open>files\<close>, before any answer is looked at, so a request that fails does not stop
  the later ones. The promise yields the entries in the order of \<open>files\<close>, or the first
  failure. The service answers the requests in the order in which they were issued.
\<close>

fun createBlobs :: "upload_file list \<Rightarrow> remote \<Rightarrow> (error + tree_entry list) \<times> remote" where
  "createBlobs [] r = (Inr [], r)"
| "createBlobs (f # fs) r =
     (case createBlob (blobContent f) ''base64'' r of
        (Inl e, r') \<Rightarrow> (Inl e, snd (createBlobs fs r'))
      | (Inr s, r') \<Rightarrow>
          (case createBlobs fs r' of
             (Inl e, r'') \<Rightarrow> (Inl e, r'')
           | (Inr es, r'') \<Rightarrow> (Inr (blobEntry f s # es), r'')))"

definition uploadMultipleFiles :: "publisher \<Rightarrow> upload_file list \<Rightarrow> string \<Rightarrow> remote \<Rightarrow> (error + sha) \<times> remote" where
  "uploadMultipleFiles pub files commitMessage r0 =
     (case getRef (''heads/'' @ branch pub) r0 of
        (Inl e, r1) \<Rightarrow> (Inl e, r1)
      | (Inr currentCommitSha, r1) \<Rightarrow>
     (case getCommit currentCommitSha r1 of
        (Inl e, r2) \<Rightarrow> (Inl e, r2)
      | (Inr baseTreeSha, r2) \<Rightarrow>
     (case createBlobs files r2 of
        (Inl e, r3) \<Rightarrow> (Inl e, r3)
      | (Inr blobs, r3) \<Rightarrow>
     (case createTree baseTreeSha blobs r3 of
        (Inl e, r4) \<Rightarrow> (Inl e, r4)
      | (Inr treeSha, r4) \<Rightarrow>
     (case createCommit commitMessage treeSha [currentCommitSha] r4 of
        (Inl e, r5) \<Rightarrow> (Inl e, r5)
      | (Inr newCommit, r5) \<Rightarrow>
     (case updateRef (''heads/'' @ branch pub) newCommit r5 of
        (Inl e, r6) \<Rightarrow> (Inl e, r6)
      | (Inr u, r6) \<Rightarrow> (Inr newCommit, r6)))))))"

text \<open>
  Parsed JSON. A member that is absent reads as \<open>undefined\<close>, which is \<open>None\<close>
  wherever a value is optional. Numbers are rationals; only whether a number is zero
  matters to the server.
\<close>

datatype json =
    JNull
  | JBool bool
  | JNum rat
  | JStr string
  | JArr "json list"
  | JObj "(string \<times> json) list"

text \<open>A photo as the generate handler keeps it in its list \<open>photos\<close>.\<close>

record photo =
  url :: json
  label :: "json option"
  base64Content :: "string option"
  filename :: "string option"

record site_ref =
  url :: string
  path :: string

record site =
  slug :: string
  url :: string

text \<open>A string in a template literal; \<open>undefined\<close> prints as its name.\<close>

definition str :: "string option \<Rightarrow> string" where
  "str x = (case x of None \<Rightarrow> ''undefined'' | Some s \<Rightarrow> s)"

definition truthyStr :: "string option \<Rightarrow> bool" where
  "truthyStr x = (case x of None \<Rightarrow> False | Some s \<Rightarrow> s \<noteq> [])"

definition imageFiles :: "string \<Rightarrow> photo list \<Rightarrow> upload_file list" where
  "imageFiles propertySlug images =
     concat (map (\<lambda>image.
       if truthyStr (base64Content image)
       then [\<lparr>upload_file.path = ''properties/'' @ propertySlug @ ''/images/'' @ str (filename image),
              content = str (base64Content image), isBase64 = True\<rparr>]
       else []) images)"

definition siteFiles :: "string \<Rightarrow> string \<Rightarrow> photo list \<Rightarrow> upload_file list" where
  "siteFiles propertySlug htmlContent images =
     \<lparr>upload_file.path = ''properties/'' @ propertySlug @ ''/index.html'',
      content = htmlContent, isBase64 = False\<rparr> # imageFiles propertySlug images"

definition publishPropertySite ::
  "publisher \<Rightarrow> string \<Rightarrow> string \<Rightarrow> photo list \<Rightarrow> remote \<Rightarrow> (error + site_ref) \<times> remote" where
  "publishPropertySite pub propertySlug htmlContent images r =
     (case uploadMultipleFiles pub (siteFiles propertySlug htmlContent images)
             (''Add property site: '' @ propertySlug) r of
        (Inl e, r') \<Rightarrow> (Inl e, r')
      | (Inr c, r') \<Rightarrow>
          (Inr \<lparr>site_ref.url = pagesBaseUrl pub @ ''/properties/'' @ propertySlug @ ''/'',
                path = ''properties/'' @ propertySlug @ ''/''\<rparr>, r'))"

definition listPropertySites :: "publisher \<Rightarrow> remote \<Rightarrow> (error + site list) \<times> remote" where
  "listPropertySites pub r =
     (case getContent ''properties'' (branch pub) r of
        (Inr (Dir items), r') \<Rightarrow>
          (Inr (map (\<lambda>item. \<lparr>slug = name item,
                              url = pagesBaseUrl pub @ ''/properties/'' @ name item @ ''/''\<rparr>)
                 (filter (\<lambda>item. content_entry.type item = ''dir'') items)), r')
      | (Inr (File item), r') \<Rightarrow> (Inr [], r')
      | (Inl e, r') \<Rightarrow> if status e = Some 404 then (Inr [], r') else (Inl e, r'))"

fun deleteEach :: "publisher \<Rightarrow> string \<Rightarrow> content_entry list \<Rightarrow> remote \<Rightarrow> (error + unit) \<times> remote" where
  "deleteEach pub propertySlug [] r = (Inr (), r)"
| "deleteEach pub propertySlug (f # fs) r =
     (case deleteFile (content_entry.path f) (''Delete property site: '' @ propertySlug)
             (content_entry.sha f) (branch pub) r of
        (Inl e, r') \<Rightarrow> (Inl e, r')
      | (Inr u, r') \<Rightarrow> deleteEach pub propertySlug fs r')"

definition deletePropertySite :: "publisher \<Rightarrow> string \<Rightarrow> remote \<Rightarrow> (error + unit) \<times> remote" where
  "deletePropertySite pub propertySlug r =
     (case getContent (''properties/'' @ propertySlug) (branch pub) r of
        (Inl e, r') \<Rightarrow> (Inl e, r')
      | (Inr (Dir items), r') \<Rightarrow> deleteEach pub propertySlug items r'
      | (Inr (File item), r') \<Rightarrow> deleteEach pub propertySlug [item] r')"

section \<open>The form server\<close>

subsection \<open>Request bodies\<close>

text \<open>
  \<open>value?.[part]\<close>: a property of an object, \<open>undefined\<close> for anything else. None of
  the names the server reads is a property of a string, number, boolean or array.
\<close>

fun getProp :: "json option \<Rightarrow> string \<Rightarrow> json option" where
  "getProp (Some (JObj kvs)) k = map_of kvs k"
| "getProp v k = None"

text \<open>JavaScript's truthiness, as \<open>!value\<close> and \<open>if (value)\<close> read it.\<close>

fun truthy :: "json option \<Rightarrow> bool" where
  "truthy None = False"
| "truthy (Some JNull) = False"
| "truthy (Some (JBool b)) = b"
| "truthy (Some (JNum n)) = (n \<noteq> 0)"
| "truthy (Some (JStr s)) = (s \<noteq> [])"
| "truthy (Some (JArr xs)) = True"
| "truthy (Some (JObj kvs)) = True"

fun splitOn :: "char \<Rightarrow> string \<Rightarrow> string list" where
  "splitOn c [] = [[]]"
| "splitOn c (x # xs) =
     (if x = c then [] # splitOn c xs
      else (case splitOn c xs of [] \<Rightarrow> [[x]] | w # ws \<Rightarrow> (x # w) # ws))"

definition requiredFields :: "string list" where
  "requiredFields =
     [''property.address'', ''property.city'', ''property.state'', ''property.zip'',
      ''property.price'', ''property.bedrooms'', ''property.bathrooms'', ''property.sqft'',
      ''property.yearBuilt'', ''property.description'',
      ''realtor.name'', ''realtor.company'', ''realtor.license'', ''realtor.phone'', ''realtor.email'',
      ''loanOfficer.name'', ''loanOfficer.company'', ''loanOfficer.nmls'', ''loanOfficer.phone'',
      ''loanOfficer.email'']"

definition fieldValue :: "json \<Rightarrow> string \<Rightarrow> json option" where
  "fieldValue data field = foldl getProp (Some data) (splitOn CHR ''.'' field)"

definition missingFields :: "json \<Rightarrow> string list" where
  "missingFields data = filter (\<lambda>field. \<not> truthy (fieldValue data field)) requiredFields"

subsection \<open>Parts taken as parameters\<close>

record template_data =
  property :: "json option"
  realtor :: "json option"
  loanOfficer :: "json option"
  photos :: "(json \<times> json option) list"
  testimonials :: json
  githubOwner :: "string option"
  githubRepo :: string
  propertySlug :: string

text \<open>
  Modelled from the spec: \<open>generatePropertyHTML\<close> lives in \<open>./template\<close>, which is
  not among the sources; section 4.2 makes it a pure function to an HTML document string.
  \<open>path.extname\<close> and the printing of a number in a template literal belong to the
  JavaScript platform. All three are parameters.
\<close>

record platform =
  generatePropertyHTML :: "template_data \<Rightarrow> string"
  extname :: "string \<Rightarrow> string"
  numberToString :: "rat \<Rightarrow> string"

fun intercalate :: "string \<Rightarrow> string list \<Rightarrow> string" where
  "intercalate sep [] = []"
| "intercalate sep [w] = w"
| "intercalate sep (w # v # ws) = w @ sep @ intercalate sep (v # ws)"

text \<open>A value inside a template literal: JavaScript's \<open>String(value)\<close>.\<close>

fun toString :: "platform \<Rightarrow> json \<Rightarrow> string" where
  "toString pf JNull = ''null''"
| "toString pf (JBool b) = (if b then ''true'' else ''false'')"
| "toString pf (JNum n) = numberToString pf n"
| "toString pf (JStr s) = s"
| "toString pf (JArr xs) =
     intercalate '','' (map (\<lambda>x. if x = JNull then [] else toString pf x) xs)"
| "toString pf (JObj kvs) = ''[object Object]''"

definition template :: "platform \<Rightarrow> json option \<Rightarrow> string" where
  "template pf v = (case v of None \<Rightarrow> ''undefined'' | Some x \<Rightarrow> toString pf x)"

subsection \<open>Slug builder\<close>

definition letters :: string where
  "letters = ''abcdefghijklmnopqrstuvwxyz''"

definition capitals :: string where
  "capitals = ''ABCDEFGHIJKLMNOPQRSTUVWXYZ''"

definition digits :: string where
  "digits = ''0123456789''"

definition whitespace :: string where
  "whitespace = [CHR '' '', CHR 0x09, CHR 0x0A, CHR 0x0B, CHR 0x0C, CHR 0x0D]"

definition toLowerCase :: "string \<Rightarrow> string" where
  "toLowerCase s = map (\<lambda>c. case map_of (zip capitals letters) c of Some l \<Rightarrow> l | None \<Rightarrow> c) s"

text \<open>The maximal runs of characters that are not separators.\<close>

fun wordsOf :: "string \<Rightarrow> string \<Rightarrow> string list" where
  "wordsOf w [] = (if w = [] then [] else [w])"
| "wordsOf w (c # cs) =
     (if c \<in> set whitespace then (if w = [] then wordsOf [] cs else w # wordsOf [] cs)
      else wordsOf (w @ [c]) cs)"

text \<open>
  Modelled from the spec: \<open>slugify\<close> is the npm package of that name, not part of the
  repository; the server calls it with \<open>{ lower: true, strict: true }\<close>. Section 4.1:
  the output is a lowercase, hyphen-separated token containing only URL-safe characters,
  with diacritics and punctuation stripped. Letters and digits are kept, white space and
  hyphens separate words, every other character is dropped, and the words are joined by
  single hyphens.
\<close>

definition slugify :: "string \<Rightarrow> string" where
  "slugify s =
     toLowerCase (intercalate ''-''
       (wordsOf []
          (filter (\<lambda>c. c \<in> set (letters @ capitals @ digits @ whitespace))
             (map (\<lambda>c. if c = CHR ''-'' then CHR '' '' else c) s))))"

definition slugOf :: "platform \<Rightarrow> json \<Rightarrow> string" where
  "slugOf pf data =
     slugify (template pf (fieldValue data ''property.address'') @ ''-'' @
              template pf (fieldValue data ''property.city''))"

subsection \<open>Photos\<close>

function decimal :: "nat \<Rightarrow> string" where
  "decimal n = (if n < 10 then [digits ! n] else decimal (n div 10) @ [digits ! (n mod 10)])"
  by pat_completeness auto
termination
  by (relation "measure id") auto

text \<open>
  The upload directory: \<open>disk p\<close> is the content of the file that
  \<open>path.join(__dirname, '..', p)\<close> names, \<open>None\<close> when reading it fails.
  A \<open>path\<close> that is not a string makes \<open>path.join\<close> throw inside the same \<open>try\<close>.
\<close>

definition readFile :: "(string \<rightharpoonup> string) \<Rightarrow> json option \<Rightarrow> (string \<times> string) option" where
  "readFile disk v =
     (case v of
        Some (JStr p) \<Rightarrow> (case disk p of None \<Rightarrow> None | Some bytes \<Rightarrow> Some (p, bytes))
      | _ \<Rightarrow> None)"

fun processPhotos ::
  "platform \<Rightarrow> (string \<rightharpoonup> string) \<Rightarrow> json list \<Rightarrow> photo list \<Rightarrow> error + photo list" where
  "processPhotos pf disk [] sofar = Inr sofar"
| "processPhotos pf disk (JNull # rest) sofar =
     Inl (TypeError ''Cannot read properties of null'')"
| "processPhotos pf disk (ph # rest) sofar =
     (if truthy (getProp (Some ph) ''url'') then
        (case getProp (Some ph) ''url'' of
           None \<Rightarrow> processPhotos pf disk rest sofar
         | Some u \<Rightarrow>
             processPhotos pf disk rest
               (sofar @ [\<lparr>photo.url = u, label = getProp (Some ph) ''label'',
                           base64Content = None, filename = None\<rparr>]))
      else if truthy (getProp (Some ph) ''path'') then
        (case readFile disk (getProp (Some ph) ''path'') of
           None \<Rightarrow> processPhotos pf disk rest sofar
         | Some (p, bytes) \<Rightarrow>
             processPhotos pf disk rest
               (sofar @ [\<lparr>photo.url = JStr (''./images/'' @ ''photo-'' @ decimal (length sofar + 1) @ extname pf p),
                           label = getProp (Some ph) ''label'',
                           base64Content = Some (toBase64 bytes),
                           filename = Some (''photo-'' @ decimal (length sofar + 1) @ extname pf p)\<rparr>]))
      else processPhotos pf disk rest sofar)"

definition requestPhotos :: "json \<Rightarrow> json list" where
  "requestPhotos data = (case getProp (Some data) ''photos'' of Some (JArr xs) \<Rightarrow> xs | _ \<Rightarrow> [])"

text \<open>
  The clean-up loop \<open>for (const photo of data.photos || [])\<close>. Each \<open>unlink\<close> sits in
  its own \<open>try\<close>, the loop itself does not: a value that cannot be iterated throws.
\<close>

fun unlinkEach :: "json list \<Rightarrow> (string \<rightharpoonup> string) \<Rightarrow> error option \<times> (string \<rightharpoonup> string)" where
  "unlinkEach [] disk = (None, disk)"
| "unlinkEach (JNull # rest) disk = (Some (TypeError ''Cannot read properties of null''), disk)"
| "unlinkEach (ph # rest) disk =
     (case getProp (Some ph) ''path'' of
        Some (JStr p) \<Rightarrow> (if p \<noteq> [] then unlinkEach rest (disk(p := None)) else unlinkEach rest disk)
      | _ \<Rightarrow> unlinkEach rest disk)"

definition cleanUp :: "json \<Rightarrow> (string \<rightharpoonup> string) \<Rightarrow> error option \<times> (string \<rightharpoonup> string)" where
  "cleanUp data disk =
     (if \<not> truthy (getProp (Some data) ''photos'') then (None, disk)
      else (case getProp (Some data) ''photos'' of
              Some (JArr xs) \<Rightarrow> unlinkEach xs disk
            | Some (JStr s) \<Rightarrow> (None, disk)
            | _ \<Rightarrow> (Some (TypeError ''data.photos is not iterable''), disk)))"

subsection \<open>Configuration and state\<close>

record env =
  GITHUB_TOKEN :: "string option"
  GITHUB_OWNER :: "string option"
  GITHUB_REPO :: "string option"
  GITHUB_BRANCH :: "string option"
  GITHUB_PAGES_BASE_URL :: "string option"

text \<open>\<open>x || d\<close> on a string that may be undefined.\<close>

definition orElse :: "string option \<Rightarrow> string \<Rightarrow> string" where
  "orElse x d = (if truthyStr x then str x else d)"

text \<open>The constructor of \<open>GitHubPublisher\<close>, applied to the configuration object.\<close>

definition GitHubPublisher ::
  "string option \<Rightarrow> string \<Rightarrow> string \<Rightarrow> string option \<Rightarrow> publisher" where
  "GitHubPublisher cfgOwner cfgRepo cfgBranch cfgPagesBaseUrl =
     \<lparr>owner = cfgOwner, repo = cfgRepo, branch = orElse (Some cfgBranch) ''main'',
      pagesBaseUrl = orElse cfgPagesBaseUrl (''https://'' @ str cfgOwner @ ''.github.io/'' @ cfgRepo)\<rparr>"

definition initGitHubPublisher :: "env \<Rightarrow> publisher option" where
  "initGitHubPublisher ev =
     (if \<not> truthyStr (GITHUB_TOKEN ev) then None
      else Some (GitHubPublisher (GITHUB_OWNER ev) (orElse (GITHUB_REPO ev) ''LuminateSPS'')
                   (orElse (GITHUB_BRANCH ev) ''main'') (GITHUB_PAGES_BASE_URL ev)))"

text \<open>
  What a request can change: the hosted repository, the upload directory, and the
  module-level \<open>githubPublisher\<close>, created on first use.
\<close>

record server =
  remote :: remote
  disk :: "string \<rightharpoonup> string"
  githubPublisher :: "publisher option"

definition ensurePublisher :: "env \<Rightarrow> server \<Rightarrow> server" where
  "ensurePublisher ev st =
     (case githubPublisher st of
        None \<Rightarrow> st\<lparr>githubPublisher := initGitHubPublisher ev\<rparr>
      | Some pub \<Rightarrow> st)"

subsection \<open>Responses\<close>

datatype response =
    MissingFields string "string list"
  | Published string string string
  | Generated string string string
  | Failure nat string
  | Properties "site list"
  | Deleted string

text \<open>The HTTP status and the \<open>success\<close> member of the JSON payload.\<close>

fun httpStatus :: "response \<Rightarrow> nat" where
  "httpStatus (MissingFields e ms) = 400"
| "httpStatus (Failure n e) = n"
| "httpStatus resp = 200"

fun success :: "response \<Rightarrow> bool" where
  "success (MissingFields e ms) = False"
| "success (Failure n e) = False"
| "success resp = True"

subsection \<open>POST /api/generate\<close>

definition templateData :: "env \<Rightarrow> json \<Rightarrow> photo list \<Rightarrow> string \<Rightarrow> template_data" where
  "templateData ev data ps sl =
     \<lparr>property = getProp (Some data) ''property'',
      realtor = getProp (Some data) ''realtor'',
      loanOfficer = getProp (Some data) ''loanOfficer'',
      photos = map (\<lambda>p. (photo.url p, label p)) ps,
      testimonials = (case getProp (Some data) ''testimonials'' of
                        Some t \<Rightarrow> if truthy (Some t) then t else JArr []
                      | None \<Rightarrow> JArr []),
      githubOwner = GITHUB_OWNER ev,
      githubRepo = orElse (GITHUB_REPO ev) ''LuminateSPS'',
      propertySlug = sl\<rparr>"

definition publishAndRespond ::
  "env \<Rightarrow> json \<Rightarrow> string \<Rightarrow> string \<Rightarrow> photo list \<Rightarrow> server \<Rightarrow> response \<times> server" where
  "publishAndRespond ev data sl htmlContent ps st0 =
     (let st = ensurePublisher ev st0 in
      case githubPublisher st of
        None \<Rightarrow> (Failure 500 ''Cannot read properties of null'', st)
      | Some pub \<Rightarrow>
          (case publishPropertySite pub sl htmlContent
                  (filter (\<lambda>p. truthyStr (base64Content p)) ps) (remote st) of
             (Inl e, r') \<Rightarrow> (Failure 500 (message e), st\<lparr>remote := r'\<rparr>)
           | (Inr result, r') \<Rightarrow>
               (case cleanUp data (disk st) of
                  (Some e, disk') \<Rightarrow> (Failure 500 (message e), st\<lparr>remote := r', disk := disk'\<rparr>)
                | (None, disk') \<Rightarrow>
                    (Published (site_ref.url result) sl
                       ''Property site published successfully! It may take 1-2 minutes to appear on GitHub Pages.'',
                     st\<lparr>remote := r', disk := disk'\<rparr>))))"

definition generate :: "platform \<Rightarrow> env \<Rightarrow> json \<Rightarrow> server \<Rightarrow> response \<times> server" where
  "generate pf ev data st =
     (if missingFields data \<noteq> [] then
        (MissingFields ''Missing required fields'' (missingFields data), st)
      else
        (case processPhotos pf (disk st) (requestPhotos data) [] of
           Inl e \<Rightarrow> (Failure 500 (message e), st)
         | Inr ps \<Rightarrow>
             (let htmlContent = generatePropertyHTML pf (templateData ev data ps (slugOf pf data)) in
              if truthyStr (GITHUB_TOKEN ev)
              then publishAndRespond ev data (slugOf pf data) htmlContent ps st
              else (Generated htmlContent (slugOf pf data)
                      ''HTML generated successfully. Configure GitHub to auto-publish.'', st))))"

subsection \<open>GET /api/properties and DELETE /api/properties/:slug\<close>

definition listProperties :: "env \<Rightarrow> server \<Rightarrow> response \<times> server" where
  "listProperties ev st0 =
     (if \<not> truthyStr (GITHUB_TOKEN ev) then (Properties [], st0)
      else
        (let st = ensurePublisher ev st0 in
         case githubPublisher st of
           None \<Rightarrow> (Failure 500 ''Cannot read properties of null'', st)
         | Some pub \<Rightarrow>
             (case listPropertySites pub (remote st) of
                (Inl e, r') \<Rightarrow> (Failure 500 (message e), st\<lparr>remote := r'\<rparr>)
              | (Inr properties, r') \<Rightarrow> (Properties properties, st\<lparr>remote := r'\<rparr>))))"

definition deleteProperty :: "env \<Rightarrow> string \<Rightarrow> server \<Rightarrow> response \<times> server" where
  "deleteProperty ev slugParam st0 =
     (if \<not> truthyStr (GITHUB_TOKEN ev) then (Failure 400 ''GitHub not configured'', st0)
      else
        (let st = ensurePublisher ev st0 in
         case githubPublisher st of
           None \<Rightarrow> (Failure 500 ''Cannot read properties of null'', st)
         | Some pub \<Rightarrow>
             (case deletePropertySite pub slugParam (remote st) of
                (Inl e, r') \<Rightarrow> (Failure 500 (message e), st\<lparr>remote := r'\<rparr>)
              | (Inr u, r') \<Rightarrow> (Deleted ''Property site deleted'', st\<lparr>remote := r'\<rparr>))))"

section \<open>Reading the request log\<close>

text \<open>The protocol step a request belongs to; 0 for a request outside the publish protocol.\<close>

fun step :: "call \<Rightarrow> nat" where
  "step (GetRef ref) = 1"
| "step (GetCommit c) = 2"
| "step (CreateBlob c enc) = 3"
| "step (CreateTree b es) = 4"
| "step (CreateCommit m t ps) = 5"
| "step (UpdateRef ref s) = 6"
| "step (GetContent p ref) = 0"
| "step (DeleteFile p m s b) = 0"

definition blobCall :: "upload_file \<Rightarrow> call" where
  "blobCall f = CreateBlob (blobContent f) ''base64''"

definition blobSha :: "upload_file \<Rightarrow> sha" where
  "blobSha f = BlobSha (blobContent f)"

definition blobEntries :: "upload_file list \<Rightarrow> tree_entry list" where
  "blobEntries fs = map (\<lambda>f. blobEntry f (blobSha f)) fs"

text \<open>The requests received since the log had length \<open>n\<close>.\<close>

definition since :: "nat \<Rightarrow> remote \<Rightarrow> (call \<times> error option) list" where
  "since n r = drop n (calls r)"

section \<open>A small repository, used to run the definitions\<close>

definition initialCommit :: sha where
  "initialCommit = CommitSha (TreeSha [(''README.md'', BlobSha ''SGk='')]) [] ''init''"

definition exRemote :: remote where
  "exRemote =
     \<lparr>refs = [''heads/main'' \<mapsto> initialCommit],
      objects = {initialCommit, TreeSha [(''README.md'', BlobSha ''SGk='')], BlobSha ''SGk=''},
      calls = [],
      faults = (\<lambda>n. None)\<rparr>"

definition exPublisher :: publisher where
  "exPublisher = GitHubPublisher (Some ''acme'') ''sites'' ''main'' None"


text \<open>The same repository when the request numbered \<open>n\<close> fails.\<close>

definition failingAt :: "nat \<Rightarrow> remote \<Rightarrow> remote" where
  "failingAt n r = r\<lparr>faults := (\<lambda>k. if k = n then Some (HttpError 500 ''Server Error'') else None)\<rparr>"


definition exExtname :: "string \<Rightarrow> string" where
  "exExtname p =
     (if CHR ''.'' \<in> set (baseName p)
      then CHR ''.'' # rev (takeWhile (\<lambda>c. c \<noteq> CHR ''.'') (rev p)) else [])"

definition exPlatform :: platform where
  "exPlatform =
     \<lparr>generatePropertyHTML = (\<lambda>d. ''<h1>'' @ propertySlug d @ ''</h1>''),
      extname = exExtname,
      numberToString = (\<lambda>n. decimal (nat \<lfloor>n\<rfloor>))\<rparr>"

definition exEnv :: env where
  "exEnv =
     \<lparr>GITHUB_TOKEN = Some ''token'', GITHUB_OWNER = Some ''acme'', GITHUB_REPO = Some ''sites'',
      GITHUB_BRANCH = None, GITHUB_PAGES_BASE_URL = None\<rparr>"

text \<open>A complete form submission with the given price and photo list.\<close>

definition exBody :: "json \<Rightarrow> json list \<Rightarrow> json" where
  "exBody price photoList =
     JObj [(''property'',
              JObj [(''address'', JStr ''12 Elm St''), (''city'', JStr ''Troy''), (''state'', JStr ''NY''),
                    (''zip'', JStr ''12180''), (''price'', price), (''bedrooms'', JNum 3),
                    (''bathrooms'', JStr ''2.5''), (''sqft'', JNum 1800), (''yearBuilt'', JNum 1990),
                    (''description'', JStr ''Bright'')]),
           (''realtor'',
              JObj [(''name'', JStr ''Ann''), (''company'', JStr ''Homes''), (''license'', JStr ''R1''),
                    (''phone'', JStr ''555-0100''), (''email'', JStr ''ann@homes.example'')]),
           (''loanOfficer'',
              JObj [(''name'', JStr ''Bo''), (''company'', JStr ''Loans''), (''nmls'', JStr ''N1''),
                    (''phone'', JStr ''555-0101''), (''email'', JStr ''bo@loans.example'')]),
           (''photos'', JArr photoList)]"

definition exServer :: server where
  "exServer =
     \<lparr>remote = exRemote,
      disk = [''/uploads/1.jpg'' \<mapsto> ''A'', ''/uploads/2.jpg'' \<mapsto> ''B''],
      githubPublisher = None\<rparr>"

definition localPhoto :: "string \<Rightarrow> json" where
  "localPhoto p = JObj [(''path'', JStr p), (''label'', JStr '''')]"

definition exData :: json where
  "exData = exBody (JNum 250000) [localPhoto ''/uploads/1.jpg'']"

text \<open>The server when the request numbered \<open>n\<close> to the hosting service fails.\<close>

definition exFailingAt :: "nat \<Rightarrow> server" where
  "exFailingAt n = exServer\<lparr>remote := failingAt n exRemote\<rparr>"

text \<open>The server when the hosted repository has no branch at all.\<close>

definition exNoBranch :: server where
  "exNoBranch = exServer\<lparr>remote := exRemote\<lparr>refs := Map.empty\<rparr>\<rparr>"

text \<open>Two publishes of one site: first with two stored images, then with one.\<close>

definition storedImage :: "string \<Rightarrow> string \<Rightarrow> photo" where
  "storedImage fname b64 =
     \<lparr>photo.url = JStr (''./images/'' @ fname), label = None,
      base64Content = Some b64, filename = Some fname\<rparr>"

definition firstPublish :: "(error + site_ref) \<times> remote" where
  "firstPublish =
     publishPropertySite exPublisher ''lot-1'' ''<p>one</p>''
       [storedImage ''photo-1.jpg'' ''QQ=='', storedImage ''photo-2.jpg'' ''Qg==''] exRemote"

definition secondPublish :: "(error + site_ref) \<times> remote" where
  "secondPublish =
     publishPropertySite exPublisher ''lot-1'' ''<p>two</p>''
       [storedImage ''photo-1.jpg'' ''Qw==''] (snd firstPublish)"

text \<open>A submission that has only the address.\<close>

definition exIncomplete :: json where
  "exIncomplete = JObj [(''property'', JObj [(''address'', JStr ''12 Elm St'')])]"

text \<open>A submission whose second photo names a file that is not in the upload directory.\<close>

definition exWithLostPhoto :: json where
  "exWithLostPhoto =
     exBody (JNum 250000)
       [localPhoto ''/uploads/1.jpg'', localPhoto ''/uploads/lost.jpg'', localPhoto ''/uploads/2.jpg'']"

definition exWithoutLostPhoto :: json where
  "exWithoutLostPhoto =
     exBody (JNum 250000) [localPhoto ''/uploads/1.jpg'', localPhoto ''/uploads/2.jpg'']"


section \<open>What each request does\<close>

lemmas request_defs = request_def failed_def served_def


lemma getRef_Inr:
  "getRef ref r = (Inr s, r') \<Longrightarrow>
     refs r ref = Some s \<and> r' = r\<lparr>calls := calls r @ [(GetRef ref, None)]\<rparr>"
  by (auto simp: getRef_def request_defs split: option.splits)

lemma getRef_Inl:
  "getRef ref r = (Inl e, r') \<Longrightarrow> r' = r\<lparr>calls := calls r @ [(GetRef ref, Some e)]\<rparr>"
  by (auto simp: getRef_def request_defs split: option.splits)

lemma getCommit_Inr:
  "getCommit c r = (Inr t, r') \<Longrightarrow>
     (\<exists>ps m. c = CommitSha t ps m) \<and> c \<in> objects r \<and>
     r' = r\<lparr>calls := calls r @ [(GetCommit c, None)]\<rparr>"
  by (auto simp: getCommit_def request_defs split: option.splits sha.splits if_splits)

lemma getCommit_Inl:
  "getCommit c r = (Inl e, r') \<Longrightarrow> r' = r\<lparr>calls := calls r @ [(GetCommit c, Some e)]\<rparr>"
  by (auto simp: getCommit_def request_defs split: option.splits sha.splits if_splits)

lemma createBlob_Inr:
  "createBlob c enc r = (Inr s, r') \<Longrightarrow>
     s = BlobSha c \<and>
     r' = r\<lparr>objects := insert (BlobSha c) (objects r), calls := calls r @ [(CreateBlob c enc, None)]\<rparr>"
  by (auto simp: createBlob_def request_defs split: option.splits)

lemma createBlob_Inl:
  "createBlob c enc r = (Inl e, r') \<Longrightarrow> r' = r\<lparr>calls := calls r @ [(CreateBlob c enc, Some e)]\<rparr>"
  by (auto simp: createBlob_def request_defs split: option.splits)

lemma createTree_Inr:
  "createTree b es r = (Inr s, r') \<Longrightarrow>
     (\<exists>t. b = TreeSha t \<and> s = TreeSha (layer t es)) \<and> b \<in> objects r \<and>
     r' = r\<lparr>objects := insert s (objects r), calls := calls r @ [(CreateTree b es, None)]\<rparr>"
  by (auto simp: createTree_def request_defs split: option.splits sha.splits if_splits)

lemma createTree_Inl:
  "createTree b es r = (Inl e, r') \<Longrightarrow> r' = r\<lparr>calls := calls r @ [(CreateTree b es, Some e)]\<rparr>"
  by (auto simp: createTree_def request_defs split: option.splits sha.splits if_splits)

lemma createCommit_Inr:
  "createCommit m t ps r = (Inr s, r') \<Longrightarrow>
     s = CommitSha t ps m \<and>
     r' = r\<lparr>objects := insert s (objects r), calls := calls r @ [(CreateCommit m t ps, None)]\<rparr>"
  by (auto simp: createCommit_def request_defs split: option.splits if_splits)

lemma createCommit_Inl:
  "createCommit m t ps r = (Inl e, r') \<Longrightarrow> r' = r\<lparr>calls := calls r @ [(CreateCommit m t ps, Some e)]\<rparr>"
  by (auto simp: createCommit_def request_defs split: option.splits if_splits)

lemma updateRef_Inr:
  "updateRef ref s r = (Inr u, r') \<Longrightarrow>
     r' = r\<lparr>refs := (refs r)(ref \<mapsto> s), calls := calls r @ [(UpdateRef ref s, None)]\<rparr>"
  by (auto simp: updateRef_def request_defs split: option.splits if_splits)

lemma updateRef_Inl:
  "updateRef ref s r = (Inl e, r') \<Longrightarrow> r' = r\<lparr>calls := calls r @ [(UpdateRef ref s, Some e)]\<rparr>"
  by (auto simp: updateRef_def request_defs split: option.splits if_splits)

lemma createBlobs_Inr:
  "createBlobs fs r = (Inr es, r') \<Longrightarrow>
     es = blobEntries fs \<and>
     r' = r\<lparr>objects := blobSha ` set fs \<union> objects r,
            calls := calls r @ map (\<lambda>f. (blobCall f, None)) fs\<rparr>"
proof (induction fs arbitrary: r es r')
  case Nil
  then show ?case by (simp add: blobEntries_def)
next
  case (Cons f fs)
  from Cons.prems obtain s r1 es1 where
    b: "createBlob (blobContent f) ''base64'' r = (Inr s, r1)" and
    rest: "createBlobs fs r1 = (Inr es1, r')" and es: "es = blobEntry f s # es1"
    by (auto split: prod.splits sum.splits)
  from createBlob_Inr[OF b] Cons.IH[OF rest] es show ?case
    by (auto simp: blobEntries_def blobCall_def blobSha_def)
qed

lemma createBlob_any:
  "createBlob c enc r = (res, r') \<Longrightarrow>
     refs r' = refs r \<and> faults r' = faults r \<and> objects r \<subseteq> objects r' \<and>
     (\<exists>out. calls r' = calls r @ [(CreateBlob c enc, out)])"
  by (cases res) (auto dest: createBlob_Inl createBlob_Inr)

lemma createBlobs_any:
  "createBlobs fs r = (res, r') \<Longrightarrow>
     refs r' = refs r \<and> faults r' = faults r \<and> objects r \<subseteq> objects r' \<and>
     (\<exists>new. calls r' = calls r @ new \<and> (\<forall>x\<in>set new. step (fst x) = 3))"
proof (induction fs arbitrary: r res r')
  case Nil
  then show ?case by simp
next
  case (Cons f fs)
  obtain res1 r1 where b: "createBlob (blobContent f) ''base64'' r = (res1, r1)"
    by (cases "createBlob (blobContent f) ''base64'' r")
  obtain res2 r2 where rest: "createBlobs fs r1 = (res2, r2)"
    by (cases "createBlobs fs r1")
  from Cons.prems b rest have r': "r' = r2"
    by (auto split: sum.splits)
  from createBlob_any[OF b] Cons.IH[OF rest] r' show ?case
    by auto
qed

lemma createBlobs_Inl:
  "createBlobs fs r = (Inl e, r') \<Longrightarrow>
     \<exists>pre c post. calls r' = calls r @ pre @ (c, Some e) # post \<and>
       (\<forall>x\<in>set pre. snd x = None \<and> step (fst x) = 3) \<and> step c = 3 \<and>
       (\<forall>x\<in>set post. step (fst x) = 3)"
proof (induction fs arbitrary: r r')
  case Nil
  then show ?case by simp
next
  case (Cons f fs)
  obtain res1 r1 where b: "createBlob (blobContent f) ''base64'' r = (res1, r1)"
    by (cases "createBlob (blobContent f) ''base64'' r")
  obtain res2 r2 where rest: "createBlobs fs r1 = (res2, r2)"
    by (cases "createBlobs fs r1")
  show ?case
  proof (cases res1)
    case (Inl e1)
    with Cons.prems b rest have "e1 = e" "r' = r2" by auto
    moreover from createBlob_Inl b Inl
    have "calls r1 = calls r @ [(CreateBlob (blobContent f) ''base64'', Some e1)]" by fastforce
    moreover from createBlobs_any[OF rest] obtain new where
      "calls r2 = calls r1 @ new" "\<forall>x\<in>set new. step (fst x) = 3" by auto
    ultimately have "calls r' = calls r @ [] @ (CreateBlob (blobContent f) ''base64'', Some e) # new \<and>
       (\<forall>x\<in>set []. snd x = None \<and> step (fst x) = 3) \<and> step (CreateBlob (blobContent f) ''base64'') = 3 \<and>
       (\<forall>x\<in>set new. step (fst x) = 3)" by simp
    then show ?thesis by blast
  next
    case (Inr s)
    with Cons.prems b rest have res2: "res2 = Inl e" and r': "r' = r2"
      by (auto split: sum.splits)
    from createBlob_Inr b Inr
    have c1: "calls r1 = calls r @ [(CreateBlob (blobContent f) ''base64'', None)]" by fastforce
    from Cons.IH rest res2 obtain pre c post where
      "calls r2 = calls r1 @ pre @ (c, Some e) # post"
      "\<forall>x\<in>set pre. snd x = None \<and> step (fst x) = 3" "step c = 3" "\<forall>x\<in>set post. step (fst x) = 3"
      by blast
    with c1 r' have "calls r' = calls r @ ((CreateBlob (blobContent f) ''base64'', None) # pre) @ (c, Some e) # post \<and>
       (\<forall>x\<in>set ((CreateBlob (blobContent f) ''base64'', None) # pre). snd x = None \<and> step (fst x) = 3) \<and> step c = 3 \<and>
       (\<forall>x\<in>set post. step (fst x) = 3)" by simp
    then show ?thesis by blast
  qed
qed

section \<open>Layering a tree\<close>

lemma map_of_layer:
  "map_of (layer t es) =
     map_of t ++ map_of (rev (map (\<lambda>e. (tree_entry.path e, tree_entry.sha e)) es))"
  by (induction es arbitrary: t) (simp_all add: update_conv')

lemma map_of_layer_blobEntries:
  "map_of (layer t (blobEntries files)) =
     map_of t ++ map_of (rev (map (\<lambda>f. (upload_file.path f, blobSha f)) files))"
  by (simp add: map_of_layer blobEntries_def blobEntry_def comp_def)

lemma layered_other:
  "p \<notin> upload_file.path ` set files \<Longrightarrow>
     (m ++ map_of (rev (map (\<lambda>f. (upload_file.path f, blobSha f)) files))) p = m p"
proof -
  assume "p \<notin> upload_file.path ` set files"
  then have "map_of (rev (map (\<lambda>f. (upload_file.path f, blobSha f)) files)) p = None"
    by (auto simp: map_of_eq_None_iff image_iff)
  then show ?thesis by (simp add: map_add_def)
qed


lemma supplied_some:
  assumes "f \<in> set files"
  shows "\<exists>g\<in>set files. upload_file.path g = upload_file.path f \<and>
           map_of (rev (map (\<lambda>f. (upload_file.path f, blobSha f)) files)) (upload_file.path f)
             = Some (blobSha g)"
proof -
  let ?al = "rev (map (\<lambda>f. (upload_file.path f, blobSha f)) files)"
  from assms have "upload_file.path f \<in> fst ` set ?al" by force
  then obtain v where v: "map_of ?al (upload_file.path f) = Some v"
    by (cases "map_of ?al (upload_file.path f)") (auto simp: map_of_eq_None_iff)
  then have "(upload_file.path f, v) \<in> set ?al" by (rule map_of_SomeD)
  with v show ?thesis by auto
qed



section \<open>The publish protocol\<close>

text \<open>The requests of a publish in which every step succeeds.\<close>

lemma uploadMultipleFiles_Inr:
  assumes "uploadMultipleFiles pub files msg r = (Inr c, r')"
  shows "\<exists>t ps m.
      refs r (''heads/'' @ branch pub) = Some (CommitSha (TreeSha t) ps m) \<and>
      c = CommitSha (TreeSha (layer t (blobEntries files))) [CommitSha (TreeSha t) ps m] msg \<and>
      r' = r\<lparr>refs := (refs r)(''heads/'' @ branch pub \<mapsto> c),
             objects := insert c (insert (TreeSha (layer t (blobEntries files)))
                          (blobSha ` set files \<union> objects r)),
             calls := calls r @
               [(GetRef (''heads/'' @ branch pub), None),
                (GetCommit (CommitSha (TreeSha t) ps m), None)] @
               map (\<lambda>f. (blobCall f, None)) files @
               [(CreateTree (TreeSha t) (blobEntries files), None),
                (CreateCommit msg (TreeSha (layer t (blobEntries files))) [CommitSha (TreeSha t) ps m], None),
                (UpdateRef (''heads/'' @ branch pub) c, None)]\<rparr>"
proof -
  from assms obtain cur r1 base r2 blobs r3 tr r4 nc r5 u where
    s1: "getRef (''heads/'' @ branch pub) r = (Inr cur, r1)" and
    s2: "getCommit cur r1 = (Inr base, r2)" and
    s3: "createBlobs files r2 = (Inr blobs, r3)" and
    s4: "createTree base blobs r3 = (Inr tr, r4)" and
    s5: "createCommit msg tr [cur] r4 = (Inr nc, r5)" and
    s6: "updateRef (''heads/'' @ branch pub) nc r5 = (Inr u, r')" and
    c: "c = nc"
    unfolding uploadMultipleFiles_def
    by (auto split: prod.splits sum.splits)
  from getRef_Inr[OF s1] have cur: "refs r (''heads/'' @ branch pub) = Some cur"
    and r1: "r1 = r\<lparr>calls := calls r @ [(GetRef (''heads/'' @ branch pub), None)]\<rparr>" by auto
  from getCommit_Inr[OF s2] obtain ps m where cur_eq: "cur = CommitSha base ps m"
    and r2: "r2 = r1\<lparr>calls := calls r1 @ [(GetCommit cur, None)]\<rparr>" by auto
  from createBlobs_Inr[OF s3] have blobs: "blobs = blobEntries files"
    and r3: "r3 = r2\<lparr>objects := blobSha ` set files \<union> objects r2,
                      calls := calls r2 @ map (\<lambda>f. (blobCall f, None)) files\<rparr>" by auto
  from createTree_Inr[OF s4] obtain t where base: "base = TreeSha t"
    and tr: "tr = TreeSha (layer t blobs)"
    and r4: "r4 = r3\<lparr>objects := insert tr (objects r3), calls := calls r3 @ [(CreateTree base blobs, None)]\<rparr>"
    by auto
  from createCommit_Inr[OF s5] have nc: "nc = CommitSha tr [cur] msg"
    and r5: "r5 = r4\<lparr>objects := insert nc (objects r4), calls := calls r4 @ [(CreateCommit msg tr [cur], None)]\<rparr>"
    by auto
  from updateRef_Inr[OF s6]
  have r6: "r' = r5\<lparr>refs := (refs r5)(''heads/'' @ branch pub \<mapsto> nc),
                     calls := calls r5 @ [(UpdateRef (''heads/'' @ branch pub) nc, None)]\<rparr>" .
  have "r' = r\<lparr>refs := (refs r)(''heads/'' @ branch pub \<mapsto> c),
             objects := insert c (insert (TreeSha (layer t (blobEntries files)))
                          (blobSha ` set files \<union> objects r)),
             calls := calls r @
               [(GetRef (''heads/'' @ branch pub), None),
                (GetCommit (CommitSha (TreeSha t) ps m), None)] @
               map (\<lambda>f. (blobCall f, None)) files @
               [(CreateTree (TreeSha t) (blobEntries files), None),
                (CreateCommit msg (TreeSha (layer t (blobEntries files))) [CommitSha (TreeSha t) ps m], None),
                (UpdateRef (''heads/'' @ branch pub) c, None)]\<rparr>"
    by (simp add: r6 r5 r4 r3 r2 r1 c nc tr blobs base cur_eq)
  moreover have "refs r (''heads/'' @ branch pub) = Some (CommitSha (TreeSha t) ps m)"
    using cur cur_eq base by simp
  moreover have "c = CommitSha (TreeSha (layer t (blobEntries files))) [CommitSha (TreeSha t) ps m] msg"
    by (simp add: c nc tr blobs base cur_eq)
  ultimately show ?thesis by blast
qed

text \<open>A publish that fails: where it stopped, and what it left behind.\<close>

lemma uploadMultipleFiles_Inl:
  assumes "uploadMultipleFiles pub files msg r = (Inl e, r')"
  shows "refs r' = refs r \<and> objects r \<subseteq> objects r' \<and> faults r' = faults r \<and>
     (\<exists>pre c post. calls r' = calls r @ pre @ (c, Some e) # post \<and>
        (\<forall>x\<in>set pre. snd x = None \<and> 1 \<le> step (fst x) \<and> step (fst x) \<le> step c) \<and>
        1 \<le> step c \<and> step c \<le> 6 \<and>
        (\<forall>x\<in>set post. step (fst x) = step c) \<and> (post = [] \<or> step c = 3))"
proof -
  let ?h = "''heads/'' @ branch pub"
  let ?goal = "\<lambda>r'. refs r' = refs r \<and> objects r \<subseteq> objects r' \<and> faults r' = faults r \<and>
     (\<exists>pre c post. calls r' = calls r @ pre @ (c, Some e) # post \<and>
        (\<forall>x\<in>set pre. snd x = None \<and> 1 \<le> step (fst x) \<and> step (fst x) \<le> step c) \<and>
        1 \<le> step c \<and> step c \<le> 6 \<and>
        (\<forall>x\<in>set post. step (fst x) = step c) \<and> (post = [] \<or> step c = 3))"
  have ex: "?goal q" if "refs q = refs r" "objects r \<subseteq> objects q" "faults q = faults r"
    "calls q = calls r @ pre @ (c, Some e) # post"
    "\<forall>x\<in>set pre. snd x = None \<and> 1 \<le> step (fst x) \<and> step (fst x) \<le> step c"
    "1 \<le> step c" "step c \<le> 6" "\<forall>x\<in>set post. step (fst x) = step c" "post = [] \<or> step c = 3"
    for q pre c post
    using that by blast
  obtain res1 r1 where s1: "getRef ?h r = (res1, r1)" by (cases "getRef ?h r")
  show ?thesis
  proof (cases res1)
    case (Inl e1)
    with assms s1 have "e1 = e" "r' = r1" by (auto simp: uploadMultipleFiles_def)
    with getRef_Inl s1 Inl have r': "r' = r\<lparr>calls := calls r @ [(GetRef ?h, Some e)]\<rparr>" by fastforce
    show ?thesis
      by (rule ex[of r' "[]" "GetRef ?h" "[]"]) (simp_all add: r')
  next
    case (Inr cur)
    with getRef_Inr s1 have r1: "r1 = r\<lparr>calls := calls r @ [(GetRef ?h, None)]\<rparr>" by fastforce
    obtain res2 r2 where s2: "getCommit cur r1 = (res2, r2)" by (cases "getCommit cur r1")
    show ?thesis
    proof (cases res2)
      case (Inl e2)
      with assms s1 s2 \<open>res1 = Inr cur\<close> have "e2 = e" "r' = r2" by (auto simp: uploadMultipleFiles_def)
      with getCommit_Inl s2 Inl have r': "r' = r1\<lparr>calls := calls r1 @ [(GetCommit cur, Some e)]\<rparr>" by fastforce
      show ?thesis
        by (rule ex[of r' "[(GetRef ?h, None)]" "GetCommit cur" "[]"])
           (simp_all add: r' r1)
    next
      case (Inr base)
      with getCommit_Inr s2 have r2: "r2 = r1\<lparr>calls := calls r1 @ [(GetCommit cur, None)]\<rparr>" by fastforce
      let ?p2 = "[(GetRef ?h, None), (GetCommit cur, None)]"
      have c2: "calls r2 = calls r @ ?p2" "refs r2 = refs r" "objects r2 = objects r" "faults r2 = faults r"
        by (simp_all add: r2 r1)
      obtain res3 r3 where s3: "createBlobs files r2 = (res3, r3)" by (cases "createBlobs files r2")
      from createBlobs_any[OF s3] c2
      have k3: "refs r3 = refs r" "objects r \<subseteq> objects r3" "faults r3 = faults r" by auto
      show ?thesis
      proof (cases res3)
        case (Inl e3)
        with assms s1 s2 s3 \<open>res1 = Inr cur\<close> \<open>res2 = Inr base\<close> have "e3 = e" "r' = r3"
          by (auto simp: uploadMultipleFiles_def)
        with createBlobs_Inl s3 Inl obtain pre c post where
          "calls r' = calls r2 @ pre @ (c, Some e) # post"
          "\<forall>x\<in>set pre. snd x = None \<and> step (fst x) = 3" "step c = 3" "\<forall>x\<in>set post. step (fst x) = 3"
          by blast
        with c2 k3 \<open>r' = r3\<close> show ?thesis
          by (intro ex[of r' "?p2 @ pre" "c" "post"]) auto
      next
        case (Inr blobs)
        with createBlobs_Inr s3 have blobs: "blobs = blobEntries files"
          and r3: "r3 = r2\<lparr>objects := blobSha ` set files \<union> objects r2,
                      calls := calls r2 @ map (\<lambda>f. (blobCall f, None)) files\<rparr>" by fastforce+
        let ?p3 = "?p2 @ map (\<lambda>f. (blobCall f, None)) files"
        have c3: "calls r3 = calls r @ ?p3" by (simp add: r3 c2)
        have p3: "\<forall>x\<in>set ?p3. snd x = None \<and> 1 \<le> step (fst x) \<and> step (fst x) \<le> 3"
          by (auto simp: blobCall_def)
        obtain res4 r4 where s4: "createTree base blobs r3 = (res4, r4)" by (cases "createTree base blobs r3")
        show ?thesis
        proof (cases res4)
          case (Inl e4)
          with assms s1 s2 s3 s4 \<open>res1 = Inr cur\<close> \<open>res2 = Inr base\<close> \<open>res3 = Inr blobs\<close>
          have "e4 = e" "r' = r4" by (auto simp: uploadMultipleFiles_def)
          with createTree_Inl s4 Inl have r': "r' = r3\<lparr>calls := calls r3 @ [(CreateTree base blobs, Some e)]\<rparr>"
            by fastforce
          show ?thesis
            using k3 c3 p3
            by (intro ex[of r' "?p3" "CreateTree base blobs" "[]"])
               (auto simp: r')
        next
          case (Inr tr)
          with createTree_Inr s4
          have r4: "r4 = r3\<lparr>objects := insert tr (objects r3), calls := calls r3 @ [(CreateTree base blobs, None)]\<rparr>"
            by fastforce
          let ?p4 = "?p3 @ [(CreateTree base blobs, None)]"
          have c4: "calls r4 = calls r @ ?p4" "refs r4 = refs r" "objects r \<subseteq> objects r4" "faults r4 = faults r"
            using k3 c3 by (auto simp: r4)
          have p4: "\<forall>x\<in>set ?p4. snd x = None \<and> 1 \<le> step (fst x) \<and> step (fst x) \<le> 4"
            using p3 by auto
          obtain res5 r5 where s5: "createCommit msg tr [cur] r4 = (res5, r5)"
            by (cases "createCommit msg tr [cur] r4")
          show ?thesis
          proof (cases res5)
            case (Inl e5)
            with assms s1 s2 s3 s4 s5 \<open>res1 = Inr cur\<close> \<open>res2 = Inr base\<close> \<open>res3 = Inr blobs\<close> \<open>res4 = Inr tr\<close>
            have "e5 = e" "r' = r5" by (auto simp: uploadMultipleFiles_def)
            with createCommit_Inl s5 Inl
            have r': "r' = r4\<lparr>calls := calls r4 @ [(CreateCommit msg tr [cur], Some e)]\<rparr>" by fastforce
            show ?thesis
              using c4 p4
              by (intro ex[of r' "?p4" "CreateCommit msg tr [cur]" "[]"])
                 (auto simp: r')
          next
            case (Inr nc)
            with createCommit_Inr s5
            have r5: "r5 = r4\<lparr>objects := insert nc (objects r4), calls := calls r4 @ [(CreateCommit msg tr [cur], None)]\<rparr>"
              by fastforce
            let ?p5 = "?p4 @ [(CreateCommit msg tr [cur], None)]"
            have c5: "calls r5 = calls r @ ?p5" "refs r5 = refs r" "objects r \<subseteq> objects r5" "faults r5 = faults r"
              using c4 by (auto simp: r5)
            have p5: "\<forall>x\<in>set ?p5. snd x = None \<and> 1 \<le> step (fst x) \<and> step (fst x) \<le> 6"
              using p4 by auto
            obtain res6 r6 where s6: "updateRef ?h nc r5 = (res6, r6)" by (cases "updateRef ?h nc r5")
            from assms s1 s2 s3 s4 s5 s6 \<open>res1 = Inr cur\<close> \<open>res2 = Inr base\<close> \<open>res3 = Inr blobs\<close>
              \<open>res4 = Inr tr\<close> \<open>res5 = Inr nc\<close>
            have "res6 = Inl e" "r' = r6" by (auto simp: uploadMultipleFiles_def split: sum.splits)
            with updateRef_Inl s6
            have r': "r' = r5\<lparr>calls := calls r5 @ [(UpdateRef ?h nc, Some e)]\<rparr>" by fastforce
            show ?thesis
              using c5 p5
              by (intro ex[of r' "?p5" "UpdateRef ?h nc" "[]"])
                 (auto simp: r')
          qed
        qed
      qed
    qed
  qed
qed

lemma uploadMultipleFiles_branchFiles:
  assumes "uploadMultipleFiles pub files msg r = (Inr c, r')"
  shows "branchFiles r' (branch pub) =
           branchFiles r (branch pub) ++ map_of (rev (map (\<lambda>f. (upload_file.path f, blobSha f)) files))"
proof -
  from uploadMultipleFiles_Inr[OF assms] obtain t ps m where
    cur: "refs r (''heads/'' @ branch pub) = Some (CommitSha (TreeSha t) ps m)" and
    c: "c = CommitSha (TreeSha (layer t (blobEntries files))) [CommitSha (TreeSha t) ps m] msg" and
    tip: "refs r' (''heads/'' @ branch pub) = Some c"
    by fastforce
  have "branchFiles r (branch pub) = map_of t"
    using cur by (simp add: branchFiles_def branchTree_def)
  moreover have "branchFiles r' (branch pub) = map_of (layer t (blobEntries files))"
    using tip by (simp add: branchFiles_def branchTree_def c)
  ultimately show ?thesis
    by (simp add: map_of_layer_blobEntries)
qed

section \<open>When a publish succeeds\<close>

lemma request_Inr_nofault:
  "request c serve r = (Inr x, r') \<Longrightarrow> faults r (length (calls r)) = None"
  by (auto simp: request_defs split: option.splits sum.splits)

lemma createBlobs_nofault:
  "createBlobs fs r = (Inr es, r') \<Longrightarrow> \<forall>i<length fs. faults r (length (calls r) + i) = None"
proof (induction fs arbitrary: r es r')
  case Nil
  then show ?case by simp
next
  case (Cons f fs)
  from Cons.prems obtain s r1 es1 where
    b: "createBlob (blobContent f) ''base64'' r = (Inr s, r1)" and
    rest: "createBlobs fs r1 = (Inr es1, r')"
    by (auto split: prod.splits sum.splits)
  from b have f0: "faults r (length (calls r)) = None"
    unfolding createBlob_def by (rule request_Inr_nofault)
  from createBlob_Inr[OF b] have r1: "faults r1 = faults r" "length (calls r1) = Suc (length (calls r))"
    by simp_all
  from Cons.IH[OF rest] r1 have tl: "\<forall>i<length fs. faults r (Suc (length (calls r)) + i) = None"
    by simp
  show ?case
  proof (intro allI impI)
    fix i assume "i < length (f # fs)"
    then show "faults r (length (calls r) + i) = None"
      using f0 tl by (cases i) simp_all
  qed
qed









text \<open>Conversely, a publish that succeeded met no failure and found the tip and its tree.\<close>

lemma uploadMultipleFiles_Inr_served:
  assumes "uploadMultipleFiles pub files msg r = (Inr c, r')"
  shows "(\<forall>k<length files + 5. faults r (length (calls r) + k) = None) \<and>
         (\<exists>t ps m. refs r (''heads/'' @ branch pub) = Some (CommitSha (TreeSha t) ps m) \<and>
            CommitSha (TreeSha t) ps m \<in> objects r \<and> TreeSha t \<in> objects r)"
proof -
  let ?h = "''heads/'' @ branch pub"
  let ?n = "length files"
  let ?L = "length (calls r)"
  from assms obtain cur r1 base r2 blobs r3 tr r4 nc r5 u where
    s1: "getRef ?h r = (Inr cur, r1)" and
    s2: "getCommit cur r1 = (Inr base, r2)" and
    s3: "createBlobs files r2 = (Inr blobs, r3)" and
    s4: "createTree base blobs r3 = (Inr tr, r4)" and
    s5: "createCommit msg tr [cur] r4 = (Inr nc, r5)" and
    s6: "updateRef ?h nc r5 = (Inr u, r')"
    unfolding uploadMultipleFiles_def
    by (auto split: prod.splits sum.splits)
  from getRef_Inr[OF s1] have cur: "refs r ?h = Some cur"
    and r1: "r1 = r\<lparr>calls := calls r @ [(GetRef ?h, None)]\<rparr>" by auto
  from getCommit_Inr[OF s2] obtain ps m where cur_eq: "cur = CommitSha base ps m"
    and cur_in: "cur \<in> objects r1"
    and r2: "r2 = r1\<lparr>calls := calls r1 @ [(GetCommit cur, None)]\<rparr>" by auto
  from createBlobs_Inr[OF s3] have blobs: "blobs = blobEntries files"
    and r3: "r3 = r2\<lparr>objects := blobSha ` set files \<union> objects r2,
                      calls := calls r2 @ map (\<lambda>f. (blobCall f, None)) files\<rparr>" by auto
  from createTree_Inr[OF s4] obtain t where base: "base = TreeSha t"
    and base_in: "base \<in> objects r3"
    and tr: "tr = TreeSha (layer t blobs)"
    and r4: "r4 = r3\<lparr>objects := insert tr (objects r3), calls := calls r3 @ [(CreateTree base blobs, None)]\<rparr>"
    by auto
  from createCommit_Inr[OF s5] have
    r5: "r5 = r4\<lparr>objects := insert (CommitSha tr [cur] msg) (objects r4),
                   calls := calls r4 @ [(CreateCommit msg tr [cur], None)]\<rparr>"
    by auto
  have l1: "length (calls r1) = ?L + 1" by (simp add: r1)
  have l2: "length (calls r2) = ?L + 2" by (simp add: r2 r1)
  have l3: "length (calls r3) = ?L + (?n + 2)" by (simp add: r3 r2 r1)
  have l4: "length (calls r4) = ?L + (?n + 3)" by (simp add: r4 r3 r2 r1)
  have l5: "length (calls r5) = ?L + (?n + 4)" by (simp add: r5 r4 r3 r2 r1)
  have same: "faults r1 = faults r" "faults r2 = faults r" "faults r3 = faults r"
    "faults r4 = faults r" "faults r5 = faults r"
    by (simp_all add: r5 r4 r3 r2 r1)
  have f0: "faults r (?L + 0) = None"
    using request_Inr_nofault[OF s1[unfolded getRef_def]] by simp
  have f1: "faults r (?L + 1) = None"
    using request_Inr_nofault[OF s2[unfolded getCommit_def]] unfolding l1 same .
  have fb: "faults r (?L + 2 + i) = None" if "i < ?n" for i
    using createBlobs_nofault[OF s3] that unfolding l2 same by blast
  have f4: "faults r (?L + (?n + 2)) = None"
    using request_Inr_nofault[OF s4[unfolded createTree_def]] unfolding l3 same .
  have f5: "faults r (?L + (?n + 3)) = None"
    using request_Inr_nofault[OF s5[unfolded createCommit_def]] unfolding l4 same .
  have f6: "faults r (?L + (?n + 4)) = None"
    using request_Inr_nofault[OF s6[unfolded updateRef_def]] unfolding l5 same .
  have nofault: "\<forall>k<?n + 5. faults r (?L + k) = None"
  proof (intro allI impI)
    fix k assume k: "k < ?n + 5"
    then have "k = 0 \<or> k = 1 \<or> (2 \<le> k \<and> k - 2 < ?n) \<or> k = ?n + 2 \<or> k = ?n + 3 \<or> k = ?n + 4"
      by arith
    then show "faults r (?L + k) = None"
    proof (elim disjE conjE)
      assume "k = 0" with f0 show ?thesis by simp
    next
      assume "k = 1" with f1 show ?thesis by simp
    next
      assume a: "2 \<le> k" "k - 2 < ?n"
      then have e: "?L + 2 + (k - 2) = ?L + k" by simp
      from fb[OF a(2)] show ?thesis unfolding e .
    next
      assume "k = ?n + 2" with f4 show ?thesis by simp
    next
      assume "k = ?n + 3" with f5 show ?thesis by simp
    next
      assume "k = ?n + 4" with f6 show ?thesis by simp
    qed
  qed
  from base_in base have "TreeSha t \<in> objects r" by (auto simp: r3 r2 r1 blobSha_def)
  moreover from cur_in have "cur \<in> objects r" by (simp add: r1)
  ultimately show ?thesis using nofault cur cur_eq base by auto
qed

section \<open>Claims about the commit publisher\<close>





text \<open>
  C4. A multi-file publish fails exactly when one of its requests fails, and a failure
  planned at any of its request positions makes it fail. When it fails it stops at the
  failing step: every request before the failing one succeeded, the only requests after
  it are blob requests that were issued together with it, and no request of a later step
  is sent. The error of the first failing request is the error the caller gets, and the
  generate handler answers with status 500 and \<open>success: false\<close> carrying its
  message. No request other than the protocol's own is sent, the branch pointer is not
  moved, and no object is removed.
\<close>

theorem uploadMultipleFiles_failure_aborts:
  assumes "uploadMultipleFiles pub files msg r = (res, r')"
  shows "((\<exists>c0 e0. (c0, Some e0) \<in> set (since (length (calls r)) r')) \<longleftrightarrow> (\<exists>e. res = Inl e)) \<and>
         ((\<exists>k<length files + 5. faults r (length (calls r) + k) \<noteq> None) \<longrightarrow> (\<exists>e. res = Inl e)) \<and>
         (\<forall>e. res = Inl e \<longrightarrow>
           (\<exists>pre c post. since (length (calls r)) r' = pre @ (c, Some e) # post \<and>
              (\<forall>x\<in>set pre. snd x = None \<and> 1 \<le> step (fst x) \<and> step (fst x) \<le> step c) \<and>
              1 \<le> step c \<and> step c \<le> 6 \<and>
              (\<forall>x\<in>set post. step (fst x) = step c) \<and> (post = [] \<or> step c = 3)) \<and>
           refs r' = refs r \<and> objects r \<subseteq> objects r' \<and>
           (\<forall>pf ev data st ps.
              missingFields data = [] \<and>
              processPhotos pf (disk st) (requestPhotos data) [] = Inr ps \<and>
              truthyStr (GITHUB_TOKEN ev) \<and>
              githubPublisher (ensurePublisher ev st) = Some pub \<and>
              r = remote st \<and>
              files = siteFiles (slugOf pf data)
                        (generatePropertyHTML pf (templateData ev data ps (slugOf pf data)))
                        (filter (\<lambda>p. truthyStr (base64Content p)) ps) \<and>
              msg = ''Add property site: '' @ slugOf pf data \<longrightarrow>
              generate pf ev data st =
                (Failure 500 (message e), (ensurePublisher ev st)\<lparr>remote := r'\<rparr>) \<and>
              httpStatus (fst (generate pf ev data st)) = 500 \<and>
              \<not> success (fst (generate pf ev data st))))"
proof (intro conjI)
  show "(\<exists>c0 e0. (c0, Some e0) \<in> set (since (length (calls r)) r')) \<longleftrightarrow> (\<exists>e. res = Inl e)"
  proof
    assume failed: "\<exists>c0 e0. (c0, Some e0) \<in> set (since (length (calls r)) r')"
    show "\<exists>e. res = Inl e"
    proof (cases res)
      case (Inl e)
      then show ?thesis by blast
    next
      case (Inr c)
      with assms have run: "uploadMultipleFiles pub files msg r = (Inr c, r')" by simp
      from uploadMultipleFiles_Inr[OF run] obtain t ps m where
        r': "r' = r\<lparr>refs := (refs r)(''heads/'' @ branch pub \<mapsto> c),
             objects := insert c (insert (TreeSha (layer t (blobEntries files)))
                          (blobSha ` set files \<union> objects r)),
             calls := calls r @
               [(GetRef (''heads/'' @ branch pub), None),
                (GetCommit (CommitSha (TreeSha t) ps m), None)] @
               map (\<lambda>f. (blobCall f, None)) files @
               [(CreateTree (TreeSha t) (blobEntries files), None),
                (CreateCommit msg (TreeSha (layer t (blobEntries files))) [CommitSha (TreeSha t) ps m], None),
                (UpdateRef (''heads/'' @ branch pub) c, None)]\<rparr>"
        by blast
      have "since (length (calls r)) r' =
               [(GetRef (''heads/'' @ branch pub), None),
                (GetCommit (CommitSha (TreeSha t) ps m), None)] @
               map (\<lambda>f. (blobCall f, None)) files @
               [(CreateTree (TreeSha t) (blobEntries files), None),
                (CreateCommit msg (TreeSha (layer t (blobEntries files))) [CommitSha (TreeSha t) ps m], None),
                (UpdateRef (''heads/'' @ branch pub) c, None)]"
        by (simp add: r' since_def)
      then have served: "\<forall>x\<in>set (since (length (calls r)) r'). snd x = None"
        by auto
      from failed obtain c0 e0 where "(c0, Some e0) \<in> set (since (length (calls r)) r')"
        by blast
      with served have "snd (c0, Some e0) = None" by blast
      then show ?thesis by simp
    qed
  next
    assume "\<exists>e. res = Inl e"
    then obtain e where "res = Inl e" ..
    with assms have up: "uploadMultipleFiles pub files msg r = (Inl e, r')" by simp
    from uploadMultipleFiles_Inl[OF up] obtain pre c post where
      "calls r' = calls r @ pre @ (c, Some e) # post" by blast
    then have "(c, Some e) \<in> set (since (length (calls r)) r')"
      by (simp add: since_def)
    then show "\<exists>c0 e0. (c0, Some e0) \<in> set (since (length (calls r)) r')" by blast
  qed
next
  show "(\<exists>k<length files + 5. faults r (length (calls r) + k) \<noteq> None) \<longrightarrow> (\<exists>e. res = Inl e)"
  proof
    assume planned: "\<exists>k<length files + 5. faults r (length (calls r) + k) \<noteq> None"
    show "\<exists>e. res = Inl e"
    proof (cases res)
      case (Inl e)
      then show ?thesis by blast
    next
      case (Inr c)
      with assms have run: "uploadMultipleFiles pub files msg r = (Inr c, r')" by simp
      from uploadMultipleFiles_Inr_served[OF run]
      have served: "\<forall>k<length files + 5. faults r (length (calls r) + k) = None" by (rule conjunct1)
      from planned obtain k where "k < length files + 5" "faults r (length (calls r) + k) \<noteq> None"
        by blast
      with served show ?thesis by simp
    qed
  qed
next
  show "\<forall>e. res = Inl e \<longrightarrow>
           (\<exists>pre c post. since (length (calls r)) r' = pre @ (c, Some e) # post \<and>
              (\<forall>x\<in>set pre. snd x = None \<and> 1 \<le> step (fst x) \<and> step (fst x) \<le> step c) \<and>
              1 \<le> step c \<and> step c \<le> 6 \<and>
              (\<forall>x\<in>set post. step (fst x) = step c) \<and> (post = [] \<or> step c = 3)) \<and>
           refs r' = refs r \<and> objects r \<subseteq> objects r' \<and>
           (\<forall>pf ev data st ps.
              missingFields data = [] \<and>
              processPhotos pf (disk st) (requestPhotos data) [] = Inr ps \<and>
              truthyStr (GITHUB_TOKEN ev) \<and>
              githubPublisher (ensurePublisher ev st) = Some pub \<and>
              r = remote st \<and>
              files = siteFiles (slugOf pf data)
                        (generatePropertyHTML pf (templateData ev data ps (slugOf pf data)))
                        (filter (\<lambda>p. truthyStr (base64Content p)) ps) \<and>
              msg = ''Add property site: '' @ slugOf pf data \<longrightarrow>
              generate pf ev data st =
                (Failure 500 (message e), (ensurePublisher ev st)\<lparr>remote := r'\<rparr>) \<and>
              httpStatus (fst (generate pf ev data st)) = 500 \<and>
              \<not> success (fst (generate pf ev data st)))"
  proof (intro allI impI)
    fix e assume res: "res = Inl e"
    with assms have up: "uploadMultipleFiles pub files msg r = (Inl e, r')" by simp
    from uploadMultipleFiles_Inl[OF up] obtain pre c post where
      keep: "refs r' = refs r" "objects r \<subseteq> objects r'" and
      log: "calls r' = calls r @ pre @ (c, Some e) # post" and
      rest: "\<forall>x\<in>set pre. snd x = None \<and> 1 \<le> step (fst x) \<and> step (fst x) \<le> step c"
        "1 \<le> step c" "step c \<le> 6" "\<forall>x\<in>set post. step (fst x) = step c" "post = [] \<or> step c = 3"
      by blast
    from log have "since (length (calls r)) r' = pre @ (c, Some e) # post"
      by (simp add: since_def)
    with rest have trace: "\<exists>pre c post. since (length (calls r)) r' = pre @ (c, Some e) # post \<and>
              (\<forall>x\<in>set pre. snd x = None \<and> 1 \<le> step (fst x) \<and> step (fst x) \<le> step c) \<and>
              1 \<le> step c \<and> step c \<le> 6 \<and>
              (\<forall>x\<in>set post. step (fst x) = step c) \<and> (post = [] \<or> step c = 3)"
      by blast
    have handler: "generate pf ev data st =
            (Failure 500 (message e), (ensurePublisher ev st)\<lparr>remote := r'\<rparr>)"
      if "missingFields data = []"
        "processPhotos pf (disk st) (requestPhotos data) [] = Inr ps"
        "truthyStr (GITHUB_TOKEN ev)"
        "githubPublisher (ensurePublisher ev st) = Some pub"
        "r = remote st"
        "files = siteFiles (slugOf pf data)
                        (generatePropertyHTML pf (templateData ev data ps (slugOf pf data)))
                        (filter (\<lambda>p. truthyStr (base64Content p)) ps)"
        "msg = ''Add property site: '' @ slugOf pf data"
      for pf ev data st ps
    proof -
      have same: "remote (ensurePublisher ev st) = remote st"
        by (simp add: ensurePublisher_def split: option.splits)
      from up that have
        "publishPropertySite pub (slugOf pf data)
           (generatePropertyHTML pf (templateData ev data ps (slugOf pf data)))
           (filter (\<lambda>p. truthyStr (base64Content p)) ps) (remote (ensurePublisher ev st)) = (Inl e, r')"
        by (simp add: publishPropertySite_def same)
      with that show ?thesis
        by (simp add: generate_def publishAndRespond_def Let_def)
    qed
    from trace keep handler show
      "(\<exists>pre c post. since (length (calls r)) r' = pre @ (c, Some e) # post \<and>
              (\<forall>x\<in>set pre. snd x = None \<and> 1 \<le> step (fst x) \<and> step (fst x) \<le> step c) \<and>
              1 \<le> step c \<and> step c \<le> 6 \<and>
              (\<forall>x\<in>set post. step (fst x) = step c) \<and> (post = [] \<or> step c = 3)) \<and>
           refs r' = refs r \<and> objects r \<subseteq> objects r' \<and>
           (\<forall>pf ev data st ps.
              missingFields data = [] \<and>
              processPhotos pf (disk st) (requestPhotos data) [] = Inr ps \<and>
              truthyStr (GITHUB_TOKEN ev) \<and>
              githubPublisher (ensurePublisher ev st) = Some pub \<and>
              r = remote st \<and>
              files = siteFiles (slugOf pf data)
                        (generatePropertyHTML pf (templateData ev data ps (slugOf pf data)))
                        (filter (\<lambda>p. truthyStr (base64Content p)) ps) \<and>
              msg = ''Add property site: '' @ slugOf pf data \<longrightarrow>
              generate pf ev data st =
                (Failure 500 (message e), (ensurePublisher ev st)\<lparr>remote := r'\<rparr>) \<and>
              httpStatus (fst (generate pf ev data st)) = 500 \<and>
              \<not> success (fst (generate pf ev data st)))"
      by simp
  qed
qed

theorem uploadMultipleFiles_failure_aborts_witness:
  "fst (generate exPlatform exEnv exData (exFailingAt 0)) = Failure 500 ''Server Error'' \<and>
   map (\<lambda>x. (step (fst x), snd x)) (calls (remote (snd (generate exPlatform exEnv exData (exFailingAt 0)))))
     = [(1, Some (HttpError 500 ''Server Error''))] \<and>
   fst (generate exPlatform exEnv exData (exFailingAt 2)) = Failure 500 ''Server Error'' \<and>
   map (\<lambda>x. (step (fst x), snd x)) (calls (remote (snd (generate exPlatform exEnv exData (exFailingAt 2)))))
     = [(1, None), (2, None), (3, Some (HttpError 500 ''Server Error'')), (3, None)] \<and>
   fst (generate exPlatform exEnv exData (exFailingAt 5)) = Failure 500 ''Server Error'' \<and>
   map (\<lambda>x. (step (fst x), snd x)) (calls (remote (snd (generate exPlatform exEnv exData (exFailingAt 5)))))
     = [(1, None), (2, None), (3, None), (3, None), (4, None), (5, Some (HttpError 500 ''Server Error''))] \<and>
   fst (generate exPlatform exEnv exData (exFailingAt 6)) = Failure 500 ''Server Error'' \<and>
   map (\<lambda>x. (step (fst x), snd x)) (calls (remote (snd (generate exPlatform exEnv exData (exFailingAt 6)))))
     = [(1, None), (2, None), (3, None), (3, None), (4, None), (5, None),
        (6, Some (HttpError 500 ''Server Error''))] \<and>
   refs (remote (snd (generate exPlatform exEnv exData (exFailingAt 6)))) = refs exRemote \<and>
   fst (generate exPlatform exEnv exData exNoBranch) = Failure 500 ''Not Found'' \<and>
   map (\<lambda>x. (step (fst x), snd x)) (calls (remote (snd (generate exPlatform exEnv exData exNoBranch))))
     = [(1, Some (HttpError 404 ''Not Found''))]"
proof -
  let ?sl = "slugOf exPlatform exData"
  let ?ps = "[\<lparr>photo.url = JStr ''./images/photo-1.jpg'', label = Some (JStr []),
                 base64Content = Some ''QQ=='', filename = Some ''photo-1.jpg''\<rparr>]"
  let ?files = "siteFiles ?sl (generatePropertyHTML exPlatform (templateData exEnv exData ?ps ?sl))
                  (filter (\<lambda>p. truthyStr (base64Content p)) ?ps)"
  let ?msg = "''Add property site: '' @ ?sl"
  let ?up = "\<lambda>q. uploadMultipleFiles exPublisher ?files ?msg q"
  let ?err = "HttpError 500 ''Server Error''"
  have ps: "processPhotos exPlatform (disk exServer) (requestPhotos exData) [] = Inr ?ps"
    by code_simp
  have valid: "missingFields exData = []" by code_simp
  have token: "truthyStr (GITHUB_TOKEN exEnv)" by code_simp
  have init: "initGitHubPublisher exEnv = Some exPublisher" by code_simp
  have fresh: "githubPublisher exServer = None" by (simp add: exServer_def)
  have handler: "generate exPlatform exEnv exData st =
                   (Failure 500 (message e), (ensurePublisher exEnv st)\<lparr>remote := snd (?up (remote st))\<rparr>) \<and>
                 refs (snd (?up (remote st))) = refs (remote st)"
    if out: "fst (?up (remote st)) = Inl e" and entry: "(c0, Some e) \<in> set (since (length (calls (remote st))) (snd (?up (remote st))))"
      and d: "disk st = disk exServer" and p: "githubPublisher st = githubPublisher exServer" for st e c0
  proof -
    from out have run: "?up (remote st) = (Inl e, snd (?up (remote st)))"
      by (simp add: prod_eq_iff)
    from p fresh init have pub: "githubPublisher (ensurePublisher exEnv st) = Some exPublisher"
      by (simp add: ensurePublisher_def)
    from ps d have ps': "processPhotos exPlatform (disk st) (requestPhotos exData) [] = Inr ?ps"
      by simp
    from uploadMultipleFiles_failure_aborts[OF run] entry
    have "refs (snd (?up (remote st))) = refs (remote st)"
      and "\<forall>pf ev data st' ps.
              missingFields data = [] \<and>
              processPhotos pf (disk st') (requestPhotos data) [] = Inr ps \<and>
              truthyStr (GITHUB_TOKEN ev) \<and>
              githubPublisher (ensurePublisher ev st') = Some exPublisher \<and>
              remote st = remote st' \<and>
              ?files = siteFiles (slugOf pf data)
                        (generatePropertyHTML pf (templateData ev data ps (slugOf pf data)))
                        (filter (\<lambda>p. truthyStr (base64Content p)) ps) \<and>
              ?msg = ''Add property site: '' @ slugOf pf data \<longrightarrow>
              generate pf ev data st' =
                (Failure 500 (message e), (ensurePublisher ev st')\<lparr>remote := snd (?up (remote st))\<rparr>) \<and>
              httpStatus (fst (generate pf ev data st')) = 500 \<and>
              \<not> success (fst (generate pf ev data st'))"
      by blast+
    with valid ps' token pub show ?thesis by blast
  qed
  have r: "remote (exFailingAt n) = failingAt n exRemote" "disk (exFailingAt n) = disk exServer"
    "githubPublisher (exFailingAt n) = githubPublisher exServer" for n
    by (simp_all add: exFailingAt_def)
  have rn: "remote exNoBranch = exRemote\<lparr>refs := Map.empty\<rparr>" "disk exNoBranch = disk exServer"
    "githubPublisher exNoBranch = githubPublisher exServer"
    by (simp_all add: exNoBranch_def)
  have same: "refs (failingAt n exRemote) = refs exRemote" for n
    by (simp add: failingAt_def)
  have none: "calls (failingAt n exRemote) = []" "calls (exRemote\<lparr>refs := Map.empty\<rparr>) = []" for n
    by (simp_all add: failingAt_def exRemote_def)

  have o0: "fst (?up (failingAt 0 exRemote)) = Inl ?err" by code_simp
  have l0: "map (\<lambda>x. (step (fst x), snd x)) (calls (snd (?up (failingAt 0 exRemote))))
              = [(1, Some ?err)]" by code_simp
  have e0: "(GetRef ''heads/main'', Some ?err) \<in> set (since 0 (snd (?up (failingAt 0 exRemote))))"
    by code_simp
  from handler[of "exFailingAt 0" ?err "GetRef ''heads/main''"] o0 e0
  have g0: "generate exPlatform exEnv exData (exFailingAt 0) =
              (Failure 500 (message ?err),
               (ensurePublisher exEnv (exFailingAt 0))\<lparr>remote := snd (?up (failingAt 0 exRemote))\<rparr>)"
    by (simp add: r none)

  have o2: "fst (?up (failingAt 2 exRemote)) = Inl ?err" by code_simp
  have l2: "map (\<lambda>x. (step (fst x), snd x)) (calls (snd (?up (failingAt 2 exRemote))))
              = [(1, None), (2, None), (3, Some ?err), (3, None)]" by code_simp
  have e2: "(CreateBlob (toBase64 ''<h1>12-elm-st-troy</h1>'') ''base64'', Some ?err)
              \<in> set (since 0 (snd (?up (failingAt 2 exRemote))))"
    by code_simp
  from handler[of "exFailingAt 2" ?err "CreateBlob (toBase64 ''<h1>12-elm-st-troy</h1>'') ''base64''"] o2 e2
  have g2: "generate exPlatform exEnv exData (exFailingAt 2) =
              (Failure 500 (message ?err),
               (ensurePublisher exEnv (exFailingAt 2))\<lparr>remote := snd (?up (failingAt 2 exRemote))\<rparr>)"
    by (simp add: r none)

  have o5: "fst (?up (failingAt 5 exRemote)) = Inl ?err" by code_simp
  have l5: "map (\<lambda>x. (step (fst x), snd x)) (calls (snd (?up (failingAt 5 exRemote))))
              = [(1, None), (2, None), (3, None), (3, None), (4, None), (5, Some ?err)]" by code_simp
  have e5: "list_ex (\<lambda>x. snd x = Some ?err) (since 0 (snd (?up (failingAt 5 exRemote))))"
    by code_simp
  then obtain c5 where e5': "(c5, Some ?err) \<in> set (since 0 (snd (?up (failingAt 5 exRemote))))"
    by (auto simp: list_ex_iff)
  from handler[of "exFailingAt 5" ?err c5] o5 e5'
  have g5: "generate exPlatform exEnv exData (exFailingAt 5) =
              (Failure 500 (message ?err),
               (ensurePublisher exEnv (exFailingAt 5))\<lparr>remote := snd (?up (failingAt 5 exRemote))\<rparr>)"
    by (simp add: r none)

  have o6: "fst (?up (failingAt 6 exRemote)) = Inl ?err" by code_simp
  have l6: "map (\<lambda>x. (step (fst x), snd x)) (calls (snd (?up (failingAt 6 exRemote))))
              = [(1, None), (2, None), (3, None), (3, None), (4, None), (5, None), (6, Some ?err)]"
    by code_simp
  have e6: "list_ex (\<lambda>x. snd x = Some ?err) (since 0 (snd (?up (failingAt 6 exRemote))))"
    by code_simp
  then obtain c6 where e6': "(c6, Some ?err) \<in> set (since 0 (snd (?up (failingAt 6 exRemote))))"
    by (auto simp: list_ex_iff)
  from handler[of "exFailingAt 6" ?err c6] o6 e6'
  have g6: "generate exPlatform exEnv exData (exFailingAt 6) =
              (Failure 500 (message ?err),
               (ensurePublisher exEnv (exFailingAt 6))\<lparr>remote := snd (?up (failingAt 6 exRemote))\<rparr>)"
    and k6: "refs (snd (?up (failingAt 6 exRemote))) = refs (failingAt 6 exRemote)"
    by (simp_all add: r none)

  have on: "fst (?up (exRemote\<lparr>refs := Map.empty\<rparr>)) = Inl (HttpError 404 ''Not Found'')" by code_simp
  have ln: "map (\<lambda>x. (step (fst x), snd x)) (calls (snd (?up (exRemote\<lparr>refs := Map.empty\<rparr>))))
              = [(1, Some (HttpError 404 ''Not Found''))]" by code_simp
  have en: "(GetRef ''heads/main'', Some (HttpError 404 ''Not Found''))
              \<in> set (since 0 (snd (?up (exRemote\<lparr>refs := Map.empty\<rparr>))))"
    by code_simp
  from handler[of exNoBranch "HttpError 404 ''Not Found''" "GetRef ''heads/main''"] on en
  have gn: "generate exPlatform exEnv exData exNoBranch =
              (Failure 500 (message (HttpError 404 ''Not Found'')),
               (ensurePublisher exEnv exNoBranch)\<lparr>remote := snd (?up (exRemote\<lparr>refs := Map.empty\<rparr>))\<rparr>)"
    by (simp add: rn none)

  from g0 l0 g2 l2 g5 l5 g6 l6 k6 gn ln same[of 6] show ?thesis by simp
qed

text \<open>
  C3, as the claim states it, fails: the second publish of a site with fewer images leaves
  the first publish's extra image visible on the branch.
\<close>

theorem second_publish_keeps_unsupplied_file:
  "fst firstPublish =
     Inr \<lparr>site_ref.url = ''https://acme.github.io/sites/properties/lot-1/'', path = ''properties/lot-1/''\<rparr> \<and>
   fst secondPublish =
     Inr \<lparr>site_ref.url = ''https://acme.github.io/sites/properties/lot-1/'', path = ''properties/lot-1/''\<rparr> \<and>
   map upload_file.path (siteFiles ''lot-1'' ''<p>two</p>'' [storedImage ''photo-1.jpg'' ''Qw==''])
     = [''properties/lot-1/index.html'', ''properties/lot-1/images/photo-1.jpg''] \<and>
   branchFiles (snd secondPublish) ''main'' ''properties/lot-1/images/photo-2.jpg''
     = Some (BlobSha ''Qg=='')"
  by code_simp

lemma imageFiles_not_index:
  "f \<in> set (imageFiles sl images) \<Longrightarrow> upload_file.path f \<noteq> ''properties/'' @ sl @ ''/index.html''"
  by (auto simp: imageFiles_def split: if_splits)

lemma supplied_index:
  "map_of (rev (map (\<lambda>f. (upload_file.path f, blobSha f)) (siteFiles sl html images)))
     (''properties/'' @ sl @ ''/index.html'') = Some (BlobSha (toBase64 html))"
proof -
  have "map_of (rev (map (\<lambda>f. (upload_file.path f, blobSha f)) (imageFiles sl images)))
          (''properties/'' @ sl @ ''/index.html'') = None"
    using imageFiles_not_index[of _ sl images]
    by (force simp: map_of_eq_None_iff image_iff)
  then show ?thesis
    by (simp add: siteFiles_def map_add_def blobSha_def blobContent_def)
qed

text \<open>
  C3, amended. Of two successful publishes to the same slug, the second supersedes the
  first at every path it supplies (the page \<open>index.html\<close> always); every path it does not
  supply is left as the first publish left it, so a file of the first publish that the
  second does not supply stays visible under the slug's path.
\<close>

theorem publishPropertySite_layers_on_previous:
  assumes "publishPropertySite pub sl html1 images1 r0 = (Inr s1, r1)"
      and "publishPropertySite pub sl html2 images2 r1 = (Inr s2, r2)"
  shows "branchFiles r2 (branch pub) (''properties/'' @ sl @ ''/index.html'')
           = Some (BlobSha (toBase64 html2)) \<and>
         (\<forall>f\<in>set (siteFiles sl html2 images2).
            \<exists>g\<in>set (siteFiles sl html2 images2). upload_file.path g = upload_file.path f \<and>
              branchFiles r2 (branch pub) (upload_file.path f) = Some (blobSha g)) \<and>
         (\<forall>p. p \<notin> upload_file.path ` set (siteFiles sl html2 images2) \<longrightarrow>
            branchFiles r2 (branch pub) p = branchFiles r1 (branch pub) p) \<and>
         (\<forall>f\<in>set (siteFiles sl html1 images1).
            upload_file.path f \<notin> upload_file.path ` set (siteFiles sl html2 images2) \<longrightarrow>
            (\<exists>g\<in>set (siteFiles sl html1 images1). upload_file.path g = upload_file.path f \<and>
               branchFiles r2 (branch pub) (upload_file.path f) = Some (blobSha g)))"
proof -
  let ?b = "branch pub"
  let ?sup = "\<lambda>files. map_of (rev (map (\<lambda>f. (upload_file.path f, blobSha f)) files))"
  from assms(1) obtain c1 where
    u1: "uploadMultipleFiles pub (siteFiles sl html1 images1) (''Add property site: '' @ sl) r0 = (Inr c1, r1)"
    by (auto simp: publishPropertySite_def split: prod.splits sum.splits)
  from assms(2) obtain c2 where
    u2: "uploadMultipleFiles pub (siteFiles sl html2 images2) (''Add property site: '' @ sl) r1 = (Inr c2, r2)"
    by (auto simp: publishPropertySite_def split: prod.splits sum.splits)
  have b1: "branchFiles r1 ?b = branchFiles r0 ?b ++ ?sup (siteFiles sl html1 images1)"
    by (rule uploadMultipleFiles_branchFiles[OF u1])
  have b2: "branchFiles r2 ?b = branchFiles r1 ?b ++ ?sup (siteFiles sl html2 images2)"
    by (rule uploadMultipleFiles_branchFiles[OF u2])
  have index: "branchFiles r2 ?b (''properties/'' @ sl @ ''/index.html'') = Some (BlobSha (toBase64 html2))"
    unfolding b2 using supplied_index[of sl html2 images2] by (simp add: map_add_def)
  have second: "\<forall>f\<in>set (siteFiles sl html2 images2).
            \<exists>g\<in>set (siteFiles sl html2 images2). upload_file.path g = upload_file.path f \<and>
              branchFiles r2 ?b (upload_file.path f) = Some (blobSha g)"
  proof
    fix f assume "f \<in> set (siteFiles sl html2 images2)"
    from supplied_some[OF this] show "\<exists>g\<in>set (siteFiles sl html2 images2).
        upload_file.path g = upload_file.path f \<and> branchFiles r2 ?b (upload_file.path f) = Some (blobSha g)"
      unfolding b2 by (auto simp: map_add_def)
  qed
  have other: "\<forall>p. p \<notin> upload_file.path ` set (siteFiles sl html2 images2) \<longrightarrow>
            branchFiles r2 ?b p = branchFiles r1 ?b p"
    unfolding b2 using layered_other by blast
  have first: "\<forall>f\<in>set (siteFiles sl html1 images1).
            upload_file.path f \<notin> upload_file.path ` set (siteFiles sl html2 images2) \<longrightarrow>
            (\<exists>g\<in>set (siteFiles sl html1 images1). upload_file.path g = upload_file.path f \<and>
               branchFiles r2 ?b (upload_file.path f) = Some (blobSha g))"
  proof (intro ballI impI)
    fix f assume f: "f \<in> set (siteFiles sl html1 images1)"
      and out: "upload_file.path f \<notin> upload_file.path ` set (siteFiles sl html2 images2)"
    from other out have "branchFiles r2 ?b (upload_file.path f) = branchFiles r1 ?b (upload_file.path f)"
      by blast
    moreover from supplied_some[OF f] obtain g where
      "g \<in> set (siteFiles sl html1 images1)" "upload_file.path g = upload_file.path f"
      "branchFiles r1 ?b (upload_file.path f) = Some (blobSha g)"
      unfolding b1 by (auto simp: map_add_def)
    ultimately show "\<exists>g\<in>set (siteFiles sl html1 images1). upload_file.path g = upload_file.path f \<and>
               branchFiles r2 ?b (upload_file.path f) = Some (blobSha g)"
      by auto
  qed
  from index second other first show ?thesis by blast
qed

theorem publishPropertySite_layers_on_previous_witness:
  "branchFiles (snd secondPublish) ''main'' ''properties/lot-1/index.html''
     = Some (BlobSha (toBase64 ''<p>two</p>'')) \<and>
   ''properties/lot-1/images/photo-2.jpg'' \<notin>
     upload_file.path ` set (siteFiles ''lot-1'' ''<p>two</p>'' [storedImage ''photo-1.jpg'' ''Qw=='']) \<and>
   branchFiles (snd secondPublish) ''main'' ''properties/lot-1/images/photo-2.jpg'' \<noteq> None"
proof -
  let ?s = "\<lparr>site_ref.url = ''https://acme.github.io/sites/properties/lot-1/'', path = ''properties/lot-1/''\<rparr>"
  let ?im1 = "[storedImage ''photo-1.jpg'' ''QQ=='', storedImage ''photo-2.jpg'' ''Qg=='']"
  let ?im2 = "[storedImage ''photo-1.jpg'' ''Qw=='']"
  let ?f = "\<lparr>upload_file.path = ''properties/lot-1/images/photo-2.jpg'', content = ''Qg=='', isBase64 = True\<rparr>"
  have "fst firstPublish = Inr ?s" by code_simp
  then have p1: "publishPropertySite exPublisher ''lot-1'' ''<p>one</p>'' ?im1 exRemote
                   = (Inr ?s, snd firstPublish)"
    by (simp add: firstPublish_def prod_eq_iff)
  have "fst secondPublish = Inr ?s" by code_simp
  then have p2: "publishPropertySite exPublisher ''lot-1'' ''<p>two</p>'' ?im2 (snd firstPublish)
                   = (Inr ?s, snd secondPublish)"
    by (simp add: secondPublish_def prod_eq_iff)
  have b: "branch exPublisher = ''main''" by code_simp
  have mem: "?f \<in> set (siteFiles ''lot-1'' ''<p>one</p>'' ?im1)" by code_simp
  have out: "''properties/lot-1/images/photo-2.jpg'' \<notin>
               upload_file.path ` set (siteFiles ''lot-1'' ''<p>two</p>'' ?im2)" by code_simp
  from publishPropertySite_layers_on_previous[OF p1 p2]
  have index: "branchFiles (snd secondPublish) (branch exPublisher) (''properties/'' @ ''lot-1'' @ ''/index.html'')
                 = Some (BlobSha (toBase64 ''<p>two</p>''))"
    and first: "\<forall>f\<in>set (siteFiles ''lot-1'' ''<p>one</p>'' ?im1).
            upload_file.path f \<notin> upload_file.path ` set (siteFiles ''lot-1'' ''<p>two</p>'' ?im2) \<longrightarrow>
            (\<exists>g\<in>set (siteFiles ''lot-1'' ''<p>one</p>'' ?im1). upload_file.path g = upload_file.path f \<and>
               branchFiles (snd secondPublish) (branch exPublisher) (upload_file.path f) = Some (blobSha g))"
    by blast+
  from first mem out
  have "branchFiles (snd secondPublish) (branch exPublisher) ''properties/lot-1/images/photo-2.jpg'' \<noteq> None"
    by fastforce
  with index out b show ?thesis by simp
qed

section \<open>Claims about the generate handler\<close>

lemma missingFields_set:
  "set (missingFields data) = {g \<in> set requiredFields. \<not> truthy (fieldValue data g)}"
  by (auto simp: missingFields_def)

text \<open>
  C6. A request to generate in which a required field is missing (absent, or present with
  a value that \<open>!value\<close> rejects) is answered with status 400, \<open>success: false\<close>,
  an error message and the list of all such fields, and nothing else happens: the server
  state, the hosted repository and its request log are as before.
\<close>

theorem generate_rejects_missing_fields:
  assumes "field \<in> set requiredFields" and "\<not> truthy (fieldValue data field)"
  shows "generate pf ev data st =
           (MissingFields ''Missing required fields'' (missingFields data), st) \<and>
         field \<in> set (missingFields data) \<and>
         set (missingFields data) = {g \<in> set requiredFields. \<not> truthy (fieldValue data g)} \<and>
         (\<forall>g\<in>set requiredFields. fieldValue data g = None \<longrightarrow> g \<in> set (missingFields data)) \<and>
         httpStatus (fst (generate pf ev data st)) = 400 \<and>
         \<not> success (fst (generate pf ev data st)) \<and>
         calls (remote (snd (generate pf ev data st))) = calls (remote st)"
proof -
  from assms have mem: "field \<in> set (missingFields data)"
    by (simp add: missingFields_set)
  then have "missingFields data \<noteq> []" by auto
  then have gen: "generate pf ev data st =
           (MissingFields ''Missing required fields'' (missingFields data), st)"
    by (simp add: generate_def)
  have absent: "\<forall>g\<in>set requiredFields. fieldValue data g = None \<longrightarrow> g \<in> set (missingFields data)"
    by (simp add: missingFields_set)
  from gen mem absent show ?thesis
    by (simp add: missingFields_set)
qed

theorem generate_rejects_missing_fields_witness:
  "''realtor.name'' \<in> set requiredFields \<and>
   fieldValue exIncomplete ''realtor.name'' = None \<and>
   fst (generate exPlatform exEnv exIncomplete exServer) =
     MissingFields ''Missing required fields'' (missingFields exIncomplete) \<and>
   ''realtor.name'' \<in> set (missingFields exIncomplete) \<and>
   ''property.address'' \<notin> set (missingFields exIncomplete) \<and>
   calls (remote (snd (generate exPlatform exEnv exIncomplete exServer))) = []"
proof -
  have req: "''realtor.name'' \<in> set requiredFields" by code_simp
  have none: "fieldValue exIncomplete ''realtor.name'' = None" by code_simp
  then have falsy: "\<not> truthy (fieldValue exIncomplete ''realtor.name'')" by simp
  have addr: "''property.address'' \<notin> set (missingFields exIncomplete)" by code_simp
  have empty: "calls (remote exServer) = []" by code_simp
  from generate_rejects_missing_fields[OF req falsy, of exPlatform exEnv exServer] req none addr empty
  show ?thesis by simp
qed

text \<open>
  C7, as the claim states it, fails: a complete submission whose price is the number 0 is
  rejected, with the price reported as missing.
\<close>

theorem zero_price_rejected_as_missing:
  "fieldValue (exBody (JNum 0) []) ''property.price'' = Some (JNum 0) \<and>
   missingFields (exBody (JNum 250000) []) = [] \<and>
   fst (generate exPlatform exEnv (exBody (JNum 0) []) exServer) =
     MissingFields ''Missing required fields'' [''property.price'']"
  by code_simp

text \<open>
  C7, amended. A request in which every required field has a truthy value (a non-empty
  string, a non-zero number, \<open>true\<close>, an object or an array) is not rejected as having
  missing fields. A required field whose value is the number 0 counts as missing: the
  request is rejected and the field is listed.
\<close>

theorem generate_accepts_truthy_fields:
  "((\<forall>g\<in>set requiredFields. truthy (fieldValue data g)) \<longrightarrow>
      (\<forall>e ms. fst (generate pf ev data st) \<noteq> MissingFields e ms)) \<and>
   (field \<in> set requiredFields \<and> fieldValue data field = Some (JNum 0) \<longrightarrow>
      fst (generate pf ev data st) = MissingFields ''Missing required fields'' (missingFields data) \<and>
      field \<in> set (missingFields data))"
proof (intro conjI impI)
  assume "\<forall>g\<in>set requiredFields. truthy (fieldValue data g)"
  then have "missingFields data = []"
    by (simp add: missingFields_def filter_empty_conv)
  then show "\<forall>e ms. fst (generate pf ev data st) \<noteq> MissingFields e ms"
    by (auto simp: generate_def publishAndRespond_def Let_def
             split: sum.splits option.splits prod.splits)
next
  assume a: "field \<in> set requiredFields \<and> fieldValue data field = Some (JNum 0)"
  then show "field \<in> set (missingFields data)"
    by (simp add: missingFields_set)
  then have "missingFields data \<noteq> []" by auto
  then show "fst (generate pf ev data st) = MissingFields ''Missing required fields'' (missingFields data)"
    by (simp add: generate_def)
qed

theorem generate_accepts_truthy_fields_witness:
  "missingFields exData = [] \<and>
   (\<forall>e ms. fst (generate exPlatform exEnv exData exServer) \<noteq> MissingFields e ms) \<and>
   ''property.bedrooms'' \<in> set requiredFields \<and>
   fieldValue (exBody (JNum 0) []) ''property.price'' = Some (JNum 0) \<and>
   ''property.price'' \<in> set (missingFields (exBody (JNum 0) []))"
proof -
  have all: "\<forall>g\<in>set requiredFields. truthy (fieldValue exData g)" by code_simp
  have req: "''property.price'' \<in> set requiredFields" "''property.bedrooms'' \<in> set requiredFields"
    by code_simp+
  have zero: "fieldValue (exBody (JNum 0) []) ''property.price'' = Some (JNum 0)" by code_simp
  from generate_accepts_truthy_fields[where data=exData and pf=exPlatform and ev=exEnv and st=exServer] all
  have ok: "\<forall>e ms. fst (generate exPlatform exEnv exData exServer) \<noteq> MissingFields e ms"
    by blast
  from generate_accepts_truthy_fields[where field="''property.price''" and data="exBody (JNum 0) []"] req zero
  have "''property.price'' \<in> set (missingFields (exBody (JNum 0) []))"
    by blast
  moreover have "missingFields exData = []" by code_simp
  ultimately show ?thesis using ok req zero by simp
qed

subsection \<open>Photos that cannot be read\<close>

lemma processPhotos_skip:
  assumes "\<not> truthy (getProp (Some ph) ''url'')" and "truthy (getProp (Some ph) ''path'')"
    and "readFile d (getProp (Some ph) ''path'') = None"
  shows "processPhotos pf d (ph # ys) acc = processPhotos pf d ys acc"
  using assms by (cases ph) simp_all

lemma processPhotos_drop:
  assumes "\<not> truthy (getProp (Some ph) ''url'')" and "truthy (getProp (Some ph) ''path'')"
    and "readFile d (getProp (Some ph) ''path'') = None"
  shows "processPhotos pf d (xs @ ph # ys) acc = processPhotos pf d (xs @ ys) acc"
proof (induction xs arbitrary: acc)
  case Nil
  from processPhotos_skip[OF assms] show ?case by simp
next
  case (Cons x xs)
  then show ?case
    by (cases x) (simp_all split: option.splits prod.splits)
qed

lemma readFile_unlink:
  "readFile d v = None \<Longrightarrow> readFile (d(q := None)) v = None"
  by (auto simp: readFile_def split: option.splits json.splits)

lemma unlinkEach_skip:
  assumes "truthy (getProp (Some ph) ''path'')" and "readFile d (getProp (Some ph) ''path'') = None"
  shows "unlinkEach (ph # ys) d = unlinkEach ys d"
proof (cases ph)
  case (JObj kvs)
  show ?thesis
  proof (cases "map_of kvs ''path''")
    case None
    with JObj show ?thesis by simp
  next
    case (Some v)
    show ?thesis
    proof (cases v)
      case (JStr p)
      with assms(2) JObj Some have "d p = None"
        by (simp add: readFile_def split: option.splits)
      then have "d(p := None) = d" by (simp add: fun_upd_idem)
      with JObj Some JStr show ?thesis by simp
    qed (use JObj Some in simp_all)
  qed
qed (use assms in simp_all)

lemma unlinkEach_drop:
  assumes "truthy (getProp (Some ph) ''path'')"
  shows "readFile d (getProp (Some ph) ''path'') = None \<Longrightarrow>
         unlinkEach (xs @ ph # ys) d = unlinkEach (xs @ ys) d"
proof (induction xs arbitrary: d)
  case Nil
  from unlinkEach_skip[OF assms Nil] show ?case by simp
next
  case (Cons x xs)
  show ?case
  proof (cases x)
    case (JObj kvs)
    show ?thesis
    proof (cases "map_of kvs ''path''")
      case None
      with JObj Cons show ?thesis by simp
    next
      case (Some v)
      show ?thesis
      proof (cases v)
        case (JStr p)
        from Cons.prems have rf: "readFile (d(p := None)) (getProp (Some ph) ''path'') = None"
          by (rule readFile_unlink)
        show ?thesis
        proof (cases "p = []")
          case True
          with JObj Some JStr have "unlinkEach (x # zs) d = unlinkEach zs d" for zs
            by simp
          with Cons.IH[OF Cons.prems] show ?thesis by simp
        next
          case False
          with JObj Some JStr have unlink: "unlinkEach (x # zs) d = unlinkEach zs (d(p := None))" for zs
            by simp
          have "unlinkEach ((x # xs) @ ph # ys) d = unlinkEach (xs @ ph # ys) (d(p := None))"
            by (simp only: append_Cons unlink)
          also have "\<dots> = unlinkEach (xs @ ys) (d(p := None))"
            by (rule Cons.IH[OF rf])
          also have "\<dots> = unlinkEach ((x # xs) @ ys) d"
            by (simp only: append_Cons unlink)
          finally show ?thesis .
        qed
      qed (use JObj Some Cons in simp_all)
    qed
  qed (use Cons in simp_all)
qed

lemma fieldValue_agree:
  assumes "\<forall>k. k \<noteq> ''photos'' \<longrightarrow> getProp (Some d1) k = getProp (Some d2) k"
    and "f \<in> set requiredFields"
  shows "fieldValue d1 f = fieldValue d2 f"
  using assms by (auto simp: requiredFields_def fieldValue_def)

text \<open>
  C10. A photo of the request that has no \<open>url\<close>, has a \<open>path\<close>, and whose file
  cannot be read is dropped without a trace: the response, the files published and the
  state of the server are those of the same request without that photo. In particular the
  response reports success whenever the request without the photo would, and carries
  nothing about the skipped photo.
\<close>

theorem unreadable_photo_is_dropped:
  assumes "getProp (Some d1) ''photos'' = Some (JArr (xs @ ph # ys))"
    and "getProp (Some d2) ''photos'' = Some (JArr (xs @ ys))"
    and "\<forall>k. k \<noteq> ''photos'' \<longrightarrow> getProp (Some d1) k = getProp (Some d2) k"
    and "\<not> truthy (getProp (Some ph) ''url'')"
    and "truthy (getProp (Some ph) ''path'')"
    and "readFile (disk st) (getProp (Some ph) ''path'') = None"
  shows "processPhotos pf (disk st) (requestPhotos d1) [] = processPhotos pf (disk st) (requestPhotos d2) [] \<and>
         generate pf ev d1 st = generate pf ev d2 st \<and>
         (success (fst (generate pf ev d2 st)) \<longrightarrow> success (fst (generate pf ev d1 st)))"
proof -
  have photos: "processPhotos pf (disk st) (requestPhotos d1) [] = processPhotos pf (disk st) (requestPhotos d2) []"
    using processPhotos_drop[OF assms(4,5,6)] assms(1,2) by (simp add: requestPhotos_def)
  have fields: "\<And>f. f \<in> set requiredFields \<Longrightarrow> fieldValue d1 f = fieldValue d2 f"
    using fieldValue_agree[OF assms(3)] by blast
  then have missing: "missingFields d1 = missingFields d2"
    unfolding missingFields_def by (intro filter_cong) simp_all
  have "''property.address'' \<in> set requiredFields" "''property.city'' \<in> set requiredFields"
    by (simp_all add: requiredFields_def)
  with fields have slug: "slugOf pf d1 = slugOf pf d2"
    by (simp add: slugOf_def)
  have td: "templateData ev d1 ps sl = templateData ev d2 ps sl" for ps sl
    using assms(3) by (simp add: templateData_def)
  have clean: "cleanUp d1 dk = cleanUp d2 dk" if "readFile dk (getProp (Some ph) ''path'') = None" for dk
    using unlinkEach_drop[OF assms(5) that] assms(1,2) by (simp add: cleanUp_def)
  have "disk (ensurePublisher ev st) = disk st"
    by (simp add: ensurePublisher_def split: option.splits)
  with assms(6) clean
  have eq: "cleanUp d1 (disk (ensurePublisher ev st)) = cleanUp d2 (disk (ensurePublisher ev st))"
    by simp
  have pr: "publishAndRespond ev d1 sl html ps st = publishAndRespond ev d2 sl html ps st"
    for sl html ps
    unfolding publishAndRespond_def Let_def eq ..
  have "generate pf ev d1 st = generate pf ev d2 st"
    unfolding generate_def missing photos slug td pr ..
  with photos show ?thesis by simp
qed

theorem unreadable_photo_is_dropped_witness:
  "readFile (disk exServer) (getProp (Some (localPhoto ''/uploads/lost.jpg'')) ''path'') = None \<and>
   generate exPlatform exEnv exWithLostPhoto exServer
     = generate exPlatform exEnv exWithoutLostPhoto exServer \<and>
   fst (generate exPlatform exEnv exWithLostPhoto exServer) =
     Published ''https://acme.github.io/sites/properties/12-elm-st-troy/'' ''12-elm-st-troy''
       ''Property site published successfully! It may take 1-2 minutes to appear on GitHub Pages.''"
proof -
  let ?ph = "localPhoto ''/uploads/lost.jpg''"
  have p1: "getProp (Some exWithLostPhoto) ''photos''
              = Some (JArr ([localPhoto ''/uploads/1.jpg''] @ ?ph # [localPhoto ''/uploads/2.jpg'']))"
    by (simp add: exWithLostPhoto_def exBody_def)
  have p2: "getProp (Some exWithoutLostPhoto) ''photos''
              = Some (JArr ([localPhoto ''/uploads/1.jpg''] @ [localPhoto ''/uploads/2.jpg'']))"
    by (simp add: exWithoutLostPhoto_def exBody_def)
  have same: "\<forall>k. k \<noteq> ''photos'' \<longrightarrow>
                getProp (Some exWithLostPhoto) k = getProp (Some exWithoutLostPhoto) k"
    by (simp add: exWithLostPhoto_def exWithoutLostPhoto_def exBody_def)
  have nourl: "\<not> truthy (getProp (Some ?ph) ''url'')" by code_simp
  have haspath: "truthy (getProp (Some ?ph) ''path'')" by code_simp
  have lost: "readFile (disk exServer) (getProp (Some ?ph) ''path'') = None" by code_simp
  have ok: "fst (generate exPlatform exEnv exWithoutLostPhoto exServer) =
     Published ''https://acme.github.io/sites/properties/12-elm-st-troy/'' ''12-elm-st-troy''
       ''Property site published successfully! It may take 1-2 minutes to appear on GitHub Pages.''"
    by code_simp
  from unreadable_photo_is_dropped[OF p1 p2 same nourl haspath lost, of exPlatform exEnv]
  have "generate exPlatform exEnv exWithLostPhoto exServer
          = generate exPlatform exEnv exWithoutLostPhoto exServer"
    by blast
  with lost ok show ?thesis by simp
qed

section \<open>Claims about listing and deleting sites\<close>

lemma contentAt_absent:
  assumes "\<forall>(q, s)\<in>set t. q \<noteq> p \<and> \<not> prefix (p @ ''/'') q"
  shows "contentAt t p = None"
proof -
  from assms have "p \<notin> fst ` set t" by force
  then have nofile: "map_of t p = None" by (simp add: map_of_eq_None_iff)
  from assms have "below t p = []"
    by (auto simp: below_def filter_empty_conv)
  then have "children t p = []" by (simp add: children_def)
  with nofile show ?thesis by (simp add: contentAt_def)
qed

lemma getContent_absent:
  assumes "faults r (length (calls r)) = None" and "branchTree r b = Some t"
    and "\<forall>(q, s)\<in>set t. q \<noteq> p \<and> \<not> prefix (p @ ''/'') q"
  shows "getContent p b r = (Inl notFound, r\<lparr>calls := calls r @ [(GetContent p b, Some notFound)]\<rparr>)"
  using assms(1,2) contentAt_absent[OF assms(3)]
  by (simp add: getContent_def request_defs)

text \<open>
  C8. When the hosting service answers the listing of \<open>properties\<close> with not-found, as
  it does when nothing exists at or below that path, listing the sites succeeds with an
  empty list. When it answers with a directory listing, the sites are exactly its entries
  of type \<open>dir\<close>, each with its name as slug and the URL derived from it.
\<close>

theorem listProperties_absent_path_is_empty:
  assumes "truthyStr (GITHUB_TOKEN ev)"
    and "githubPublisher (ensurePublisher ev st) = Some pub"
    and "getContent ''properties'' (branch pub) (remote st) = (out, r')"
  shows "(\<forall>e. out = Inl e \<and> status e = Some 404 \<longrightarrow>
            listProperties ev st = (Properties [], (ensurePublisher ev st)\<lparr>remote := r'\<rparr>) \<and>
            success (fst (listProperties ev st))) \<and>
         (\<forall>t. faults (remote st) (length (calls (remote st))) = None \<and>
              branchTree (remote st) (branch pub) = Some t \<and>
              (\<forall>(q, s)\<in>set t. q \<noteq> ''properties'' \<and> \<not> prefix ''properties/'' q) \<longrightarrow>
            listProperties ev st = (Properties [], (ensurePublisher ev st)\<lparr>remote := r'\<rparr>)) \<and>
         (\<forall>items. out = Inr (Dir items) \<longrightarrow>
            listProperties ev st =
              (Properties (map (\<lambda>item. \<lparr>slug = name item,
                                          url = pagesBaseUrl pub @ ''/properties/'' @ name item @ ''/''\<rparr>)
                             (filter (\<lambda>item. content_entry.type item = ''dir'') items)),
               (ensurePublisher ev st)\<lparr>remote := r'\<rparr>))"
proof -
  have same: "remote (ensurePublisher ev st) = remote st"
    by (simp add: ensurePublisher_def split: option.splits)
  have missing: "listProperties ev st = (Properties [], (ensurePublisher ev st)\<lparr>remote := r'\<rparr>)"
    if "out = Inl e" "status e = Some 404" for e
    using assms that by (simp add: listProperties_def listPropertySites_def Let_def same)
  have absent: "listProperties ev st = (Properties [], (ensurePublisher ev st)\<lparr>remote := r'\<rparr>)"
    if "faults (remote st) (length (calls (remote st))) = None"
      "branchTree (remote st) (branch pub) = Some t"
      "\<forall>(q, s)\<in>set t. q \<noteq> ''properties'' \<and> \<not> prefix ''properties/'' q" for t
  proof -
    from that have "\<forall>(q, s)\<in>set t. q \<noteq> ''properties'' \<and> \<not> prefix (''properties'' @ ''/'') q"
      by simp
    from getContent_absent[OF that(1,2) this] assms(3) have "out = Inl notFound" by simp
    moreover have "status notFound = Some 404" by (simp add: notFound_def)
    ultimately show ?thesis by (rule missing)
  qed
  have listing: "listProperties ev st =
              (Properties (map (\<lambda>item. \<lparr>slug = name item,
                                          url = pagesBaseUrl pub @ ''/properties/'' @ name item @ ''/''\<rparr>)
                             (filter (\<lambda>item. content_entry.type item = ''dir'') items)),
               (ensurePublisher ev st)\<lparr>remote := r'\<rparr>)"
    if "out = Inr (Dir items)" for items
    using assms that by (simp add: listProperties_def listPropertySites_def Let_def same)
  from missing absent listing show ?thesis by simp
qed

theorem listProperties_absent_path_is_empty_witness:
  "branchTree (remote exServer) ''main'' = Some [(''README.md'', BlobSha ''SGk='')] \<and>
   fst (listProperties exEnv exServer) = Properties [] \<and>
   fst (listProperties exEnv (exServer\<lparr>remote := snd firstPublish\<rparr>)) =
     Properties [\<lparr>slug = ''lot-1'', url = ''https://acme.github.io/sites/properties/lot-1/''\<rparr>]"
proof -
  let ?st = "exServer\<lparr>remote := snd firstPublish\<rparr>"
  have token: "truthyStr (GITHUB_TOKEN exEnv)" by code_simp
  have init: "initGitHubPublisher exEnv = Some exPublisher" by code_simp
  then have pub: "githubPublisher (ensurePublisher exEnv exServer) = Some exPublisher"
    "githubPublisher (ensurePublisher exEnv ?st) = Some exPublisher"
    by (simp_all add: ensurePublisher_def exServer_def)
  have b: "branch exPublisher = ''main''" by code_simp
  have tree: "branchTree (remote exServer) (branch exPublisher) = Some [(''README.md'', BlobSha ''SGk='')]"
    by code_simp
  have nofault: "faults (remote exServer) (length (calls (remote exServer))) = None"
    by code_simp
  have none: "\<forall>(q, s)\<in>set [(''README.md'', BlobSha ''SGk='')]. q \<noteq> ''properties'' \<and> \<not> prefix ''properties/'' q"
    by simp
  obtain out r' where g: "getContent ''properties'' (branch exPublisher) (remote exServer) = (out, r')"
    by (cases "getContent ''properties'' (branch exPublisher) (remote exServer)")
  from listProperties_absent_path_is_empty[OF token pub(1) g] nofault tree none
  have empty: "fst (listProperties exEnv exServer) = Properties []"
    by fastforce
  let ?items = "[\<lparr>content_entry.type = ''dir'', name = ''lot-1'', path = ''properties/lot-1'',
                   sha = TreeSha [(''index.html'', BlobSha (toBase64 ''<p>one</p>'')),
                                  (''images/photo-1.jpg'', BlobSha ''QQ==''),
                                  (''images/photo-2.jpg'', BlobSha ''Qg=='')]\<rparr>]"
  have "fst (getContent ''properties'' (branch exPublisher) (remote ?st)) = Inr (Dir ?items)"
    by code_simp
  then have g2: "getContent ''properties'' (branch exPublisher) (remote ?st)
                   = (Inr (Dir ?items), snd (getContent ''properties'' (branch exPublisher) (remote ?st)))"
    by (simp add: prod_eq_iff)
  have base: "pagesBaseUrl exPublisher = ''https://acme.github.io/sites''" by code_simp
  from listProperties_absent_path_is_empty[OF token pub(2) g2] base
  have "fst (listProperties exEnv ?st) =
          Properties [\<lparr>slug = ''lot-1'', url = ''https://acme.github.io/sites/properties/lot-1/''\<rparr>]"
    by simp
  with empty tree b show ?thesis by simp
qed

text \<open>
  C5 on a site with stored images: the deleter lists the site's directory once and sends
  a delete request for each entry of that listing. The listing names the directory
  \<open>images\<close>, not the files in it; the request for the directory path is refused and the
  images stay on the branch.
\<close>

theorem deletePropertySite_leaves_nested_files:
  "fst (deletePropertySite exPublisher ''lot-1'' (snd firstPublish)) = Inl notFound \<and>
   map fst (since (length (calls (snd firstPublish)))
              (snd (deletePropertySite exPublisher ''lot-1'' (snd firstPublish)))) =
     [GetContent ''properties/lot-1'' ''main'',
      DeleteFile ''properties/lot-1/images'' ''Delete property site: lot-1''
        (TreeSha [(''photo-1.jpg'', BlobSha ''QQ==''), (''photo-2.jpg'', BlobSha ''Qg=='')]) ''main''] \<and>
   branchFiles (snd (deletePropertySite exPublisher ''lot-1'' (snd firstPublish))) ''main''
     ''properties/lot-1/images/photo-1.jpg'' = Some (BlobSha ''QQ=='')"
  by code_simp

section \<open>Claims about the slug builder\<close>

lemma lower_char:
  "c \<in> set (letters @ capitals @ digits) \<Longrightarrow>
     (case map_of (zip capitals letters) c of Some l \<Rightarrow> l | None \<Rightarrow> c) \<in> set (letters @ digits)"
  by (auto simp: letters_def capitals_def digits_def)

lemma toLowerCase_alnum:
  assumes "set w \<subseteq> set (letters @ capitals @ digits)"
  shows "set (toLowerCase w) \<subseteq> set (letters @ digits)"
proof
  fix c assume "c \<in> set (toLowerCase w)"
  then obtain x where x: "x \<in> set w"
    and c: "c = (case map_of (zip capitals letters) x of Some l \<Rightarrow> l | None \<Rightarrow> x)"
    by (auto simp: toLowerCase_def)
  from x assms have "x \<in> set (letters @ capitals @ digits)" by blast
  from lower_char[OF this] c show "c \<in> set (letters @ digits)" by simp
qed

lemma toLowerCase_append: "toLowerCase (u @ v) = toLowerCase u @ toLowerCase v"
  by (simp add: toLowerCase_def)

lemma toLowerCase_hyphen: "toLowerCase ''-'' = ''-''"
  by (simp add: toLowerCase_def capitals_def letters_def)

lemma toLowerCase_intercalate:
  "toLowerCase (intercalate ''-'' ws) = intercalate ''-'' (map toLowerCase ws)"
proof (induction "''-''" ws rule: intercalate.induct)
  case 1
  show ?case by (simp add: toLowerCase_def)
next
  case (2 w)
  show ?case by simp
next
  case (3 w v ws)
  then show ?case
    by (simp only: intercalate.simps list.map toLowerCase_append toLowerCase_hyphen)
qed

lemma wordsOf_words:
  assumes "set cs \<subseteq> set (letters @ capitals @ digits) \<union> set whitespace"
    and "set w \<subseteq> set (letters @ capitals @ digits)"
  shows "\<forall>v\<in>set (wordsOf w cs). v \<noteq> [] \<and> set v \<subseteq> set (letters @ capitals @ digits)"
  using assms
proof (induction cs arbitrary: w)
  case Nil
  then show ?case by simp
next
  case (Cons c cs)
  from Cons.prems(1) have rest: "set cs \<subseteq> set (letters @ capitals @ digits) \<union> set whitespace"
    by simp
  show ?case
  proof (cases "c \<in> set whitespace")
    case True
    have "set ([]::string) \<subseteq> set (letters @ capitals @ digits)" by simp
    from Cons.IH[OF rest this] Cons.prems(2) True show ?thesis by auto
  next
    case False
    with Cons.prems(1) have "c \<in> set (letters @ capitals @ digits)" by auto
    with Cons.prems(2) have "set (w @ [c]) \<subseteq> set (letters @ capitals @ digits)" by simp
    from Cons.IH[OF rest this] False show ?thesis by simp
  qed
qed

lemma set_intercalate: "set (intercalate sep ws) \<subseteq> set sep \<union> \<Union>(set ` set ws)"
  by (induction sep ws rule: intercalate.induct) auto

text \<open>
  C9. The slug is a function of the address and city strings alone: it is the slugified
  text \<open>address-city\<close>, whatever else the request, the configuration and the server state
  hold. Every slug is a sequence of non-empty words of lowercase letters and digits joined
  by single hyphens, so it holds no capital, no white space and no punctuation.
\<close>

theorem slug_is_lowercase_hyphenated:
  "(\<exists>ws. slugify s = intercalate ''-'' ws \<and>
          (\<forall>w\<in>set ws. w \<noteq> [] \<and> set w \<subseteq> set (letters @ digits))) \<and>
   set (slugify s) \<subseteq> set (letters @ digits @ ''-'') \<and>
   (fieldValue data ''property.address'' = Some (JStr a) \<and>
    fieldValue data ''property.city'' = Some (JStr c) \<longrightarrow>
      slugOf pf data = slugify (a @ ''-'' @ c))"
proof -
  let ?kept = "filter (\<lambda>c. c \<in> set (letters @ capitals @ digits @ whitespace))
                 (map (\<lambda>c. if c = CHR ''-'' then CHR '' '' else c) s)"
  let ?ws = "wordsOf [] ?kept"
  have "set ?kept \<subseteq> set (letters @ capitals @ digits) \<union> set whitespace" by auto
  moreover have "set ([]::string) \<subseteq> set (letters @ capitals @ digits)" by simp
  ultimately have words: "\<forall>v\<in>set ?ws. v \<noteq> [] \<and> set v \<subseteq> set (letters @ capitals @ digits)"
    by (rule wordsOf_words)
  have eq: "slugify s = intercalate ''-'' (map toLowerCase ?ws)"
    by (simp add: slugify_def toLowerCase_intercalate)
  have low: "\<forall>w\<in>set (map toLowerCase ?ws). w \<noteq> [] \<and> set w \<subseteq> set (letters @ digits)"
  proof
    fix w assume "w \<in> set (map toLowerCase ?ws)"
    then obtain v where v: "v \<in> set ?ws" and w: "w = toLowerCase v" by auto
    from words v have "v \<noteq> []" "set v \<subseteq> set (letters @ capitals @ digits)" by auto
    with w toLowerCase_alnum[of v] show "w \<noteq> [] \<and> set w \<subseteq> set (letters @ digits)"
      by (simp add: toLowerCase_def)
  qed
  from eq low have shape: "\<exists>ws. slugify s = intercalate ''-'' ws \<and>
          (\<forall>w\<in>set ws. w \<noteq> [] \<and> set w \<subseteq> set (letters @ digits))"
    by blast
  have chars: "set (slugify s) \<subseteq> set (letters @ digits @ ''-'')"
  proof
    fix x assume "x \<in> set (slugify s)"
    with eq set_intercalate[of "''-''" "map toLowerCase ?ws"]
    have "x \<in> set ''-'' \<union> \<Union>(set ` set (map toLowerCase ?ws))" by auto
    with low show "x \<in> set (letters @ digits @ ''-'')" by auto
  qed
  have strings: "fieldValue data ''property.address'' = Some (JStr a) \<and>
    fieldValue data ''property.city'' = Some (JStr c) \<longrightarrow>
      slugOf pf data = slugify (a @ ''-'' @ c)"
    by (simp add: slugOf_def template_def)
  from shape chars strings show ?thesis by blast
qed

theorem slug_is_lowercase_hyphenated_witness:
  "fieldValue exData ''property.address'' = Some (JStr ''12 Elm St'') \<and>
   fieldValue exData ''property.city'' = Some (JStr ''Troy'') \<and>
   slugOf exPlatform exData = ''12-elm-st-troy'' \<and>
   slugify (''123 Main St'' @ ''-'' @ ''Springfield'') = ''123-main-st-springfield'' \<and>
   set (slugify ''  Suite #5, Elm & Oak -- Rd.  '') \<subseteq> set (letters @ digits @ ''-'')"
proof -
  have a: "fieldValue exData ''property.address'' = Some (JStr ''12 Elm St'')" by code_simp
  have c: "fieldValue exData ''property.city'' = Some (JStr ''Troy'')" by code_simp
  have v: "slugify (''12 Elm St'' @ ''-'' @ ''Troy'') = ''12-elm-st-troy''" by code_simp
  have spec: "slugify (''123 Main St'' @ ''-'' @ ''Springfield'') = ''123-main-st-springfield''"
    by code_simp
  from slug_is_lowercase_hyphenated[of _ exData "''12 Elm St''" "''Troy''" exPlatform] a c v
  have "slugOf exPlatform exData = ''12-elm-st-troy''" by simp
  moreover from slug_is_lowercase_hyphenated[of "''  Suite #5, Elm & Oak -- Rd.  ''"]
  have "set (slugify ''  Suite #5, Elm & Oak -- Rd.  '') \<subseteq> set (letters @ digits @ ''-'')"
    by blast
  ultimately show ?thesis using a c spec by simp
qed

end
